theory Spec2Isabelle
  imports Complex_Main
begin

section \<open>Arena Brawler: the simulation core\<close>

text \<open>
  A shallow embedding of the simulation core of the arena brawler: the vector helper, the
  arena, the player, the collision physics, the round manager and the fixed-step driver.
  JavaScript numbers are modelled as real numbers (no rounding, no NaN, no infinities);
  object references to players are indices into the player list; every mutation is
  explicit state passing.  \<open>Math.random()\<close> and \<open>Date.now()\<close> are inputs of the
  functions that read them.
\<close>

subsection \<open>utils/Vector2.js\<close>

record vec =
  vx :: real
  vy :: real

definition Vector2 :: "real \<Rightarrow> real \<Rightarrow> vec" where
  "Vector2 x y = \<lparr>vx = x, vy = y\<rparr>"

definition vzero :: vec where
  "vzero = Vector2 0 0"

definition vadd :: "vec \<Rightarrow> vec \<Rightarrow> vec" where
  "vadd v w = \<lparr>vx = vx v + vx w, vy = vy v + vy w\<rparr>"

definition multiply :: "real \<Rightarrow> vec \<Rightarrow> vec" where
  "multiply s v = \<lparr>vx = vx v * s, vy = vy v * s\<rparr>"

definition magnitude :: "vec \<Rightarrow> real" where
  "magnitude v = sqrt (vx v * vx v + vy v * vy v)"

definition magnitudeSquared :: "vec \<Rightarrow> real" where
  "magnitudeSquared v = vx v * vx v + vy v * vy v"

definition normalize_vec :: "vec \<Rightarrow> vec" where
  "normalize_vec v =
     (let mag = magnitude v
      in if mag > 0 then \<lparr>vx = vx v / mag, vy = vy v / mag\<rparr> else v)"

definition limit :: "real \<Rightarrow> vec \<Rightarrow> vec" where
  "limit mx v =
     (if magnitudeSquared v > mx * mx then multiply mx (normalize_vec v) else v)"

subsection \<open>config.js\<close>

definition CANVAS_WIDTH :: real where "CANVAS_WIDTH = 1000"
definition CANVAS_HEIGHT :: real where "CANVAS_HEIGHT = 700"
definition ARENA_PADDING :: real where "ARENA_PADDING = 50"
definition PLAYER_RADIUS :: real where "PLAYER_RADIUS = 25"
definition PLAYER_MASS :: real where "PLAYER_MASS = 1"
definition PLAYER_MAX_SPEED :: real where "PLAYER_MAX_SPEED = 6"
definition PLAYER_ACCELERATION :: real where "PLAYER_ACCELERATION = 8 / 10"
definition PLAYER_FRICTION :: real where "PLAYER_FRICTION = 92 / 100"
definition PLAYER_BOUNCE_FACTOR :: real where "PLAYER_BOUNCE_FACTOR = 8 / 10"
definition DASH_SPEED_MULTIPLIER :: real where "DASH_SPEED_MULTIPLIER = 3"
definition DASH_DURATION :: real where "DASH_DURATION = 150"
definition DASH_COOLDOWN :: real where "DASH_COOLDOWN = 1500"
definition COLLISION_PUSH_FORCE :: real where "COLLISION_PUSH_FORCE = 15 / 10"
definition COLLISION_DASH_PUSH_MULTIPLIER :: real where "COLLISION_DASH_PUSH_MULTIPLIER = 2"
definition WINS_NEEDED :: nat where "WINS_NEEDED = 3"
definition COUNTDOWN_DURATION :: int where "COUNTDOWN_DURATION = 3"
definition ROUND_END_DELAY :: real where "ROUND_END_DELAY = 2000"
definition MATCH_END_DELAY :: real where "MATCH_END_DELAY = 3000"
definition FIXED_TIMESTEP :: real where "FIXED_TIMESTEP = 1000 / 60"
definition BASE_DAMAGE_MULTIPLIER :: real where "BASE_DAMAGE_MULTIPLIER = 1"
definition MAX_DAMAGE_MULTIPLIER :: real where "MAX_DAMAGE_MULTIPLIER = 25 / 10"
definition DAMAGE_RAMP_START :: real where "DAMAGE_RAMP_START = 8000"
definition DAMAGE_RAMP_DURATION :: real where "DAMAGE_RAMP_DURATION = 10000"
definition INSTABILITY_START :: real where "INSTABILITY_START = 12000"
definition INSTABILITY_MAX_FORCE :: real where "INSTABILITY_MAX_FORCE = 3 / 10"
definition FINAL_COUNTDOWN_START :: real where "FINAL_COUNTDOWN_START = 20000"
definition FINAL_COUNTDOWN_DURATION :: real where "FINAL_COUNTDOWN_DURATION = 5000"

text \<open>
  An entry of \<open>CONFIG.MODIFIERS\<close>: the name and the optional numeric effects (the
  description and the icon are display text).  \<open>key\<close> is the property that
  \<open>getRandomModifier\<close> adds; the entry \<open>NONE\<close> is returned without it.
\<close>

record modifier =
  key :: "string option"
  name :: "string option"
  friction :: "real option"
  pushMultiplier :: "real option"
  arenaScale_mod :: "real option"
  shrinkSpeed :: "real option"
  speedMultiplier :: "real option"
  bounceMultiplier :: "real option"

definition no_fields :: modifier where
  "no_fields = \<lparr>key = None, name = None, friction = None, pushMultiplier = None,
     arenaScale_mod = None, shrinkSpeed = None, speedMultiplier = None,
     bounceMultiplier = None\<rparr>"

definition MODIFIERS_NONE :: modifier where
  "MODIFIERS_NONE = no_fields\<lparr>name := Some ''Standard''\<rparr>"

definition MODIFIERS :: "(string \<times> modifier) list" where
  "MODIFIERS =
    [(''NONE'', MODIFIERS_NONE),
     (''SLIPPERY'', no_fields\<lparr>name := Some ''Ice Arena'', friction := Some (98 / 100)\<rparr>),
     (''HEAVY_HITS'', no_fields\<lparr>name := Some ''Heavy Hits'', pushMultiplier := Some 2\<rparr>),
     (''TINY_ARENA'', no_fields\<lparr>name := Some ''Claustrophobic'', arenaScale_mod := Some (7 / 10)\<rparr>),
     (''FAST_SHRINK'', no_fields\<lparr>name := Some ''Closing In'', shrinkSpeed := Some (25 / 10)\<rparr>),
     (''TURBO'', no_fields\<lparr>name := Some ''Turbo Mode'', speedMultiplier := Some (14 / 10)\<rparr>),
     (''BOUNCY'', no_fields\<lparr>name := Some ''Bouncy'', bounceMultiplier := Some (15 / 10)\<rparr>)]"

subsection \<open>entities/Arena.js\<close>

record bounds_t =
  left :: real
  right :: real
  top_y :: real
  bottom :: real

record arena =
  bounds :: bounds_t
  width :: real
  height :: real
  centerX :: real
  centerY :: real
  time :: real
  pulsePhase_arena :: real
  borderGlow :: real
  targetBorderGlow :: real
  originalBounds :: bounds_t
  shrinkStartTime :: real
  shrinkDuration :: real
  minSizePercent :: real
  roundTime_arena :: real
  isShrinking :: bool
  shrinkWarningShown :: bool
  arenaScale :: real
  shrinkSpeedMultiplier :: real
  suddenDeathActive :: bool
  suddenDeathStartTime :: real
  suddenDeathShrinkSpeed :: real
  suddenDeathForce :: real
  centrifugeMode :: bool
  centrifugeRadius :: real
  centrifugeRotation :: real
  centrifugeSpeed :: real
  centrifugeMaxSpeed :: real
  centrifugeForce :: real
  centrifugeMaxForce :: real

text \<open>The constructor \<open>new Arena(canvasWidth, canvasHeight)\<close>.\<close>

definition new_Arena :: "real \<Rightarrow> real \<Rightarrow> arena" where
  "new_Arena canvasWidth canvasHeight =
     (let padding = ARENA_PADDING;
          b = \<lparr>left = padding, right = canvasWidth - padding,
               top_y = padding, bottom = canvasHeight - padding\<rparr>;
          w = right b - left b;
          h = bottom b - top_y b
      in \<lparr>bounds = b, width = w, height = h,
          centerX = left b + w / 2, centerY = top_y b + h / 2,
          time = 0, pulsePhase_arena = 0, borderGlow = 0, targetBorderGlow = 0,
          originalBounds = b,
          shrinkStartTime = 8000, shrinkDuration = 12000, minSizePercent = 35 / 100,
          roundTime_arena = 0, isShrinking = False, shrinkWarningShown = False,
          arenaScale = 1, shrinkSpeedMultiplier = 1,
          suddenDeathActive = False, suddenDeathStartTime = 12000,
          suddenDeathShrinkSpeed = 5, suddenDeathForce = 15 / 100,
          centrifugeMode = False, centrifugeRadius = 0, centrifugeRotation = 0,
          centrifugeSpeed = 0, centrifugeMaxSpeed = 4 / 1000,
          centrifugeForce = 0, centrifugeMaxForce = 35 / 100\<rparr>)"

definition applyScale :: "arena \<Rightarrow> arena" where
  "applyScale a =
     (let origWidth = right (originalBounds a) - left (originalBounds a);
          origHeight = bottom (originalBounds a) - top_y (originalBounds a);
          newWidth = origWidth * arenaScale a;
          newHeight = origHeight * arenaScale a
      in a\<lparr>bounds := \<lparr>left = centerX a - newWidth / 2, right = centerX a + newWidth / 2,
                        top_y = centerY a - newHeight / 2,
                        bottom = centerY a + newHeight / 2\<rparr>,
            width := newWidth, height := newHeight\<rparr>)"

definition setScale :: "real \<Rightarrow> arena \<Rightarrow> arena" where
  "setScale scale a = applyScale (a\<lparr>arenaScale := scale\<rparr>)"

definition setShrinkSpeed :: "real \<Rightarrow> arena \<Rightarrow> arena" where
  "setShrinkSpeed m a = a\<lparr>shrinkSpeedMultiplier := m\<rparr>"

text \<open>
  \<open>getSpawnPositions(playerCount)\<close>: the first \<open>playerCount\<close> of four predefined points.
  Reading past the fourth point gives \<open>undefined\<close> in the source (\<open>None\<close> here).
\<close>

definition spawnPoints :: "arena \<Rightarrow> vec list" where
  "spawnPoints a =
     (let padding = 80
      in [Vector2 (left (bounds a) + padding) (centerY a),
          Vector2 (right (bounds a) - padding) (centerY a),
          Vector2 (centerX a) (top_y (bounds a) + padding),
          Vector2 (centerX a) (bottom (bounds a) - padding)])"

definition getSpawnPositions :: "nat \<Rightarrow> arena \<Rightarrow> vec option list" where
  "getSpawnPositions playerCount a =
     map (\<lambda>i. if i < length (spawnPoints a) then Some (spawnPoints a ! i) else None)
       [0..<playerCount]"

definition isOutOfCentrifuge :: "arena \<Rightarrow> real \<Rightarrow> real \<Rightarrow> real \<Rightarrow> bool" where
  "isOutOfCentrifuge a x y r =
     (if \<not> centrifugeMode a then False
      else let dx = x - centerX a; dy = y - centerY a;
               dist = sqrt (dx * dx + dy * dy)
           in dist + r > centrifugeRadius a)"

definition isEliminatedCentrifuge :: "arena \<Rightarrow> real \<Rightarrow> real \<Rightarrow> real \<Rightarrow> bool" where
  "isEliminatedCentrifuge a x y r =
     (if \<not> centrifugeMode a then False
      else let dx = x - centerX a; dy = y - centerY a;
               dist = sqrt (dx * dx + dy * dy)
           in dist - r > centrifugeRadius a)"

definition isOutOfBounds :: "arena \<Rightarrow> real \<Rightarrow> real \<Rightarrow> real \<Rightarrow> bool" where
  "isOutOfBounds a x y r =
     (if centrifugeMode a then isOutOfCentrifuge a x y r
      else (x - r < left (bounds a) \<or> x + r > right (bounds a) \<or>
            y - r < top_y (bounds a) \<or> y + r > bottom (bounds a)))"

definition isEliminated :: "arena \<Rightarrow> real \<Rightarrow> real \<Rightarrow> real \<Rightarrow> bool" where
  "isEliminated a x y r =
     (if centrifugeMode a then isEliminatedCentrifuge a x y r
      else (x + r < left (bounds a) \<or> x - r > right (bounds a) \<or>
            y + r < top_y (bounds a) \<or> y - r > bottom (bounds a)))"

definition getDistanceToBoundary :: "arena \<Rightarrow> real \<Rightarrow> real \<Rightarrow> real" where
  "getDistanceToBoundary a x y =
     min (x - left (bounds a))
       (min (right (bounds a) - x) (min (y - top_y (bounds a)) (bottom (bounds a) - y)))"

definition triggerBorderGlow :: "arena \<Rightarrow> arena" where
  "triggerBorderGlow a = a\<lparr>targetBorderGlow := 1\<rparr>"

text \<open>\<open>Arena.reset()\<close>, called between rounds and when a match starts.\<close>

definition Arena_reset :: "arena \<Rightarrow> arena" where
  "Arena_reset a =
     (let b = originalBounds a;
          w = right b - left b;
          h = bottom b - top_y b
      in a\<lparr>bounds := b, width := w, height := h,
            centerX := left b + w / 2, centerY := top_y b + h / 2,
            roundTime_arena := 0, isShrinking := False, shrinkWarningShown := False,
            suddenDeathActive := False,
            centrifugeMode := False, centrifugeRotation := 0, centrifugeSpeed := 0,
            centrifugeForce := 0,
            arenaScale := 1, shrinkSpeedMultiplier := 1\<rparr>)"

definition getShrinkProgress :: "arena \<Rightarrow> real" where
  "getShrinkProgress a =
     (if roundTime_arena a < shrinkStartTime a then 0
      else let shrinkTime = roundTime_arena a - shrinkStartTime a
           in min 1 (shrinkTime / shrinkDuration a))"

definition setAliveCount :: "int \<Rightarrow> arena \<Rightarrow> arena" where
  "setAliveCount count a =
     (if count \<le> 2 \<and> roundTime_arena a \<ge> suddenDeathStartTime a \<and> \<not> suddenDeathActive a
      then a\<lparr>suddenDeathActive := True\<rparr> else a)"

definition activateCentrifuge :: "arena \<Rightarrow> arena" where
  "activateCentrifuge a =
     a\<lparr>centrifugeMode := True,
       centrifugeRadius := min (width a) (height a) * (45 / 100),
       centrifugeRotation := 0, centrifugeSpeed := 0, centrifugeForce := 0\<rparr>"

definition getCentrifugeForce :: "arena \<Rightarrow> real \<Rightarrow> real \<Rightarrow> vec" where
  "getCentrifugeForce a x y =
     (if \<not> centrifugeMode a \<or> centrifugeForce a = 0 then Vector2 0 0
      else let dx = x - centerX a; dy = y - centerY a;
               dist = sqrt (dx * dx + dy * dy)
           in if dist < 10 then Vector2 0 0
              else let forceMagnitude = centrifugeForce a * (dist / 100)
                   in Vector2 ((dx / dist) * forceMagnitude) ((dy / dist) * forceMagnitude))"

definition getSuddenDeathForce :: "arena \<Rightarrow> real \<Rightarrow> real \<Rightarrow> vec" where
  "getSuddenDeathForce a x y =
     (if \<not> suddenDeathActive a then Vector2 0 0
      else let dx = centerX a - x; dy = centerY a - y;
               dist = sqrt (dx * dx + dy * dy)
           in if dist < 1 then Vector2 0 0
              else let forceMultiplier = min (dist / 100) 2 * suddenDeathForce a
                   in Vector2 ((dx / dist) * forceMultiplier) ((dy / dist) * forceMultiplier))"

text \<open>
  \<open>Arena.update(deltaTime, isPlaying)\<close>, in the order of the source: the animation
  clocks, the centrifuge ramp, then the round clock and the shrink.
\<close>

definition Arena_update_anim :: "real \<Rightarrow> arena \<Rightarrow> arena" where
  "Arena_update_anim deltaTime a =
     (let bg = borderGlow a + (targetBorderGlow a - borderGlow a) * (1 / 10)
      in a\<lparr>time := time a + deltaTime,
            pulsePhase_arena := pulsePhase_arena a + deltaTime * (3 / 1000),
            borderGlow := bg,
            targetBorderGlow := targetBorderGlow a * (95 / 100)\<rparr>)"

definition Arena_update_centrifuge :: "real \<Rightarrow> bool \<Rightarrow> arena \<Rightarrow> arena" where
  "Arena_update_centrifuge deltaTime isPlaying a =
     (if centrifugeMode a \<and> isPlaying then
        (let sp = min (centrifugeSpeed a + (5 / 1000000) * deltaTime) (centrifugeMaxSpeed a)
         in a\<lparr>centrifugeSpeed := sp,
               centrifugeRotation := centrifugeRotation a + sp * deltaTime,
               centrifugeForce :=
                 min (centrifugeForce a + (1 / 10000) * deltaTime) (centrifugeMaxForce a),
               centrifugeRadius := max 80 (centrifugeRadius a - (15 / 1000) * deltaTime)\<rparr>)
      else a)"

definition Arena_update_shrink :: "real \<Rightarrow> bool \<Rightarrow> arena \<Rightarrow> arena" where
  "Arena_update_shrink deltaTime isPlaying a0 =
     (if isPlaying then
        (let a = a0\<lparr>roundTime_arena := roundTime_arena a0 + deltaTime\<rparr>;
             shrinkMultiplier =
               (if suddenDeathActive a then suddenDeathShrinkSpeed a
                else shrinkSpeedMultiplier a)
         in if roundTime_arena a \<ge> shrinkStartTime a then
              (let baseProgress = getShrinkProgress a;
                   progress = min 1 (baseProgress * shrinkMultiplier);
                   scale = 1 - (1 - minSizePercent a) * progress;
                   finalScale = scale * arenaScale a;
                   newWidth = (right (originalBounds a) - left (originalBounds a)) * finalScale;
                   newHeight = (bottom (originalBounds a) - top_y (originalBounds a)) * finalScale
               in a\<lparr>isShrinking := True,
                     bounds := \<lparr>left = centerX a - newWidth / 2,
                                 right = centerX a + newWidth / 2,
                                 top_y = centerY a - newHeight / 2,
                                 bottom = centerY a + newHeight / 2\<rparr>,
                     width := newWidth, height := newHeight\<rparr>)
            else a)
      else a0)"

definition Arena_update :: "real \<Rightarrow> bool \<Rightarrow> arena \<Rightarrow> arena" where
  "Arena_update deltaTime isPlaying a =
     Arena_update_shrink deltaTime isPlaying
       (Arena_update_centrifuge deltaTime isPlaying (Arena_update_anim deltaTime a))"

subsection \<open>entities/Player.js\<close>

text \<open>
  The player.  The colour strings are display data and are left out; \<open>maxTrailLength\<close>
  and \<open>maxIdleTime\<close> are never reassigned and are constants here.  \<open>pulsePhase\<close>
  starts at a random angle, an input of the constructor.  \<open>distanceFromCenter\<close> is the
  property the driver adds to the object; it is \<open>None\<close> until then.
\<close>

record player =
  pid :: nat
  position :: vec
  velocity :: vec
  radius :: real
  mass :: real
  isAlive :: bool
  isDashing :: bool
  dashTimeRemaining :: real
  dashCooldown :: real
  dashDirection :: vec
  hitFlash :: real
  pulsePhase :: real
  trailPositions :: "vec list"
  lastMoveDirection :: vec
  squashStretch :: vec
  targetSquash :: vec
  nearEdge :: bool
  edgeWarningIntensity :: real
  idleTime :: real
  isIdle :: bool
  idleWarningShown :: bool
  wins :: nat
  spawnPosition :: vec
  eliminationTime :: "real option"
  distanceFromCenter :: "real option"

definition maxTrailLength :: nat where "maxTrailLength = 10"
definition maxIdleTime :: real where "maxIdleTime = 5000"

definition new_Player :: "nat \<Rightarrow> real \<Rightarrow> real \<Rightarrow> real \<Rightarrow> player" where
  "new_Player i x y phase =
     \<lparr>pid = i, position = Vector2 x y, velocity = Vector2 0 0,
      radius = PLAYER_RADIUS, mass = PLAYER_MASS,
      isAlive = True, isDashing = False, dashTimeRemaining = 0, dashCooldown = 0,
      dashDirection = Vector2 0 0,
      hitFlash = 0, pulsePhase = phase, trailPositions = [],
      lastMoveDirection = Vector2 1 0,
      squashStretch = Vector2 1 1, targetSquash = Vector2 1 1,
      nearEdge = False, edgeWarningIntensity = 0,
      idleTime = 0, isIdle = False, idleWarningShown = False,
      wins = 0, spawnPosition = Vector2 x y,
      eliminationTime = None, distanceFromCenter = None\<rparr>"

definition Player_reset :: "player \<Rightarrow> player" where
  "Player_reset p =
     p\<lparr>position := spawnPosition p, velocity := Vector2 0 0,
       isAlive := True, isDashing := False, dashTimeRemaining := 0, dashCooldown := 0,
       hitFlash := 0, trailPositions := [],
       squashStretch := Vector2 1 1, targetSquash := Vector2 1 1,
       nearEdge := False, edgeWarningIntensity := 0,
       idleTime := 0, isIdle := False, idleWarningShown := False,
       eliminationTime := None\<rparr>"

definition setSpawnPosition :: "real \<Rightarrow> real \<Rightarrow> player \<Rightarrow> player" where
  "setSpawnPosition x y p = p\<lparr>spawnPosition := Vector2 x y\<rparr>"

definition canDash :: "player \<Rightarrow> bool" where
  "canDash p = (\<not> isDashing p \<and> dashCooldown p \<le> 0)"

text \<open>\<open>startDash(direction, speedMultiplier)\<close>: no guard of its own, no return value.\<close>

definition startDash :: "vec \<Rightarrow> real \<Rightarrow> player \<Rightarrow> player" where
  "startDash direction speedMult p =
     (let dd = normalize_vec direction
      in p\<lparr>isDashing := True,
            dashTimeRemaining := DASH_DURATION,
            dashCooldown := DASH_COOLDOWN,
            dashDirection := dd,
            lastMoveDirection := dd,
            targetSquash := Vector2 (6 / 10) (14 / 10),
            velocity := multiply (PLAYER_MAX_SPEED * DASH_SPEED_MULTIPLIER * speedMult) dd\<rparr>)"

text \<open>
  The per-tick input of one player, and the result object of \<open>handleInput\<close>:
  \<open>{dashStarted: true, direction}\<close> is \<open>Some direction\<close>, \<open>{dashStarted: false}\<close> is
  \<open>None\<close>.
\<close>

record input_t =
  movement :: vec
  dash :: bool

definition dashStarted :: "vec option \<Rightarrow> bool" where
  "dashStarted r = (r \<noteq> None)"

definition tick_dashCooldown :: "real \<Rightarrow> player \<Rightarrow> player" where
  "tick_dashCooldown deltaTime p =
     (if dashCooldown p > 0 then p\<lparr>dashCooldown := dashCooldown p - deltaTime\<rparr> else p)"

definition tick_dashState :: "real \<Rightarrow> player \<Rightarrow> player" where
  "tick_dashState deltaTime p =
     (if isDashing p then
        (let q = p\<lparr>dashTimeRemaining := dashTimeRemaining p - deltaTime\<rparr>
         in if dashTimeRemaining q \<le> 0
            then q\<lparr>isDashing := False, targetSquash := Vector2 (13 / 10) (7 / 10)\<rparr>
            else q)
      else p)"

text \<open>
  \<open>handleInput(input, deltaTime, speedMultiplier)\<close>: the two timers (the helper
  definitions above, in the order of the source), then the dash attempt, then the
  movement acceleration.
\<close>

definition handleInput :: "input_t \<Rightarrow> real \<Rightarrow> real \<Rightarrow> player \<Rightarrow> player \<times> vec option" where
  "handleInput inp deltaTime speedMult p0 =
     (if \<not> isAlive p0 then (p0, None)
      else
        let p2 = tick_dashState deltaTime (tick_dashCooldown deltaTime p0)
        in if dash inp \<and> canDash p2 \<and> magnitude (movement inp) > 0
           then (startDash (movement inp) speedMult p2, Some (movement inp))
           else if \<not> isDashing p2 \<and> magnitude (movement inp) > 0
           then (p2\<lparr>velocity :=
                       vadd (velocity p2)
                         (multiply (PLAYER_ACCELERATION * speedMult) (movement inp)),
                     lastMoveDirection := normalize_vec (movement inp)\<rparr>, None)
           else (p2, None))"

definition onHit :: "player \<Rightarrow> player" where
  "onHit p = p\<lparr>hitFlash := 1, targetSquash := Vector2 (14 / 10) (6 / 10)\<rparr>"

definition updateVisualEffects :: "real \<Rightarrow> arena option \<Rightarrow> player \<Rightarrow> player" where
  "updateVisualEffects deltaTime ar p0 =
     (let p1 = (if hitFlash p0 > 0 then p0\<lparr>hitFlash := hitFlash p0 - 1 / 10\<rparr> else p0);
          p2 = p1\<lparr>pulsePhase := pulsePhase p1 + deltaTime * (5 / 1000)\<rparr>;
          p3 = p2\<lparr>squashStretch :=
                   Vector2
                     (vx (squashStretch p2) + (vx (targetSquash p2) - vx (squashStretch p2)) * (2 / 10))
                     (vy (squashStretch p2) + (vy (targetSquash p2) - vy (squashStretch p2)) * (2 / 10))\<rparr>;
          p4 = p3\<lparr>targetSquash :=
                   Vector2
                     (vx (targetSquash p3) + (1 - vx (targetSquash p3)) * (1 / 10))
                     (vy (targetSquash p3) + (1 - vy (targetSquash p3)) * (1 / 10))\<rparr>
      in case ar of
           None \<Rightarrow> p4
         | Some a \<Rightarrow>
             (let distToEdge = getDistanceToBoundary a (vx (position p4)) (vy (position p4));
                  warningDistance = 60
              in if distToEdge < warningDistance
                 then p4\<lparr>nearEdge := True,
                         edgeWarningIntensity := 1 - distToEdge / warningDistance\<rparr>
                 else p4\<lparr>nearEdge := False, edgeWarningIntensity := 0\<rparr>))"

text \<open>The friction factor that \<open>Player.update\<close> multiplies the velocity by.\<close>

definition clampedFriction :: "player \<Rightarrow> real \<Rightarrow> real" where
  "clampedFriction p frictionMultiplier =
     (let baseFriction = (if isDashing p then 98 / 100 else PLAYER_FRICTION);
          fr = baseFriction * frictionMultiplier
      in min (995 / 1000) (max (85 / 100) fr))"

definition update_trail :: "player \<Rightarrow> player" where
  "update_trail p =
     (if magnitude (velocity p) > 1 then
        (let t = position p # trailPositions p
         in p\<lparr>trailPositions := (if length t > maxTrailLength then butlast t else t)\<rparr>)
      else p)"

definition track_idle :: "real \<Rightarrow> player \<Rightarrow> player" where
  "track_idle deltaTime p =
     (if magnitude (velocity p) < 5 / 10 then
        (let q = p\<lparr>idleTime := idleTime p + deltaTime\<rparr>
         in if idleTime q \<ge> maxIdleTime then q\<lparr>isIdle := True\<rparr> else q)
      else p\<lparr>idleTime := 0, isIdle := False, idleWarningShown := False\<rparr>)"

definition apply_friction :: "real \<Rightarrow> player \<Rightarrow> player" where
  "apply_friction frictionMultiplier p =
     p\<lparr>velocity := multiply (clampedFriction p frictionMultiplier) (velocity p)\<rparr>"

definition limit_speed :: "player \<Rightarrow> player" where
  "limit_speed p =
     (let maxSpeed = (if isDashing p then PLAYER_MAX_SPEED * DASH_SPEED_MULTIPLIER
                      else PLAYER_MAX_SPEED)
      in p\<lparr>velocity := limit maxSpeed (velocity p)\<rparr>)"

definition integrate :: "player \<Rightarrow> player" where
  "integrate p = p\<lparr>position := vadd (position p) (velocity p)\<rparr>"

text \<open>
  \<open>Player.update(deltaTime, arena, frictionMultiplier)\<close>: the trail, the idle clock, the
  friction, the speed limit, the position and the visual effects, each a helper
  definition above, composed in the order of the source.
\<close>

definition Player_update :: "real \<Rightarrow> arena option \<Rightarrow> real \<Rightarrow> player \<Rightarrow> player" where
  "Player_update deltaTime ar frictionMultiplier p0 =
     (if \<not> isAlive p0 then p0
      else updateVisualEffects deltaTime ar
             (integrate (limit_speed (apply_friction frictionMultiplier
                (track_idle deltaTime (update_trail p0))))))"

text \<open>\<open>eliminate()\<close>; \<open>now\<close> is the reading of \<open>Date.now()\<close>.\<close>

definition eliminate :: "real \<Rightarrow> player \<Rightarrow> player" where
  "eliminate now p =
     p\<lparr>isAlive := False, velocity := Vector2 0 0, eliminationTime := Some now\<rparr>"

definition addWin :: "player \<Rightarrow> player" where
  "addWin p = p\<lparr>wins := wins p + 1\<rparr>"

definition hasWonMatch :: "player \<Rightarrow> bool" where
  "hasWonMatch p = (wins p \<ge> WINS_NEEDED)"

subsection \<open>core/Physics.js\<close>

definition checkCircleCollision :: "player \<Rightarrow> player \<Rightarrow> bool" where
  "checkCircleCollision p1 p2 =
     (let dx = vx (position p2) - vx (position p1);
          dy = vy (position p2) - vy (position p1);
          distance = sqrt (dx * dx + dy * dy);
          minDistance = radius p1 + radius p2
      in distance < minDistance)"

text \<open>
  \<open>resolveCollision(p1, p2, damageMultiplier, bounceMultiplier)\<close> mutates both players; the
  model returns the pair.  The branch for a damage multiplier above 1.5 multiplies both
  velocities by 1.0, as in the source.
\<close>

definition resolveCollision :: "player \<Rightarrow> player \<Rightarrow> real \<Rightarrow> real \<Rightarrow> player \<times> player" where
  "resolveCollision p1 p2 damageMult bounceMult =
     (if \<not> isAlive p1 \<or> \<not> isAlive p2 then (p1, p2)
      else
        let dx = vx (position p2) - vx (position p1);
            dy = vy (position p2) - vy (position p1);
            distance = sqrt (dx * dx + dy * dy);
            minDistance = radius p1 + radius p2
        in if distance \<ge> minDistance \<or> distance = 0 then (p1, p2)
           else
             let nx = dx / distance;
                 ny = dy / distance;
                 overlap = minDistance - distance;
                 separationX = (overlap / 2) * nx;
                 separationY = (overlap / 2) * ny;
                 q1 = p1\<lparr>position := Vector2 (vx (position p1) - separationX)
                                           (vy (position p1) - separationY)\<rparr>;
                 q2 = p2\<lparr>position := Vector2 (vx (position p2) + separationX)
                                           (vy (position p2) + separationY)\<rparr>;
                 dvx = vx (velocity q1) - vx (velocity q2);
                 dvy = vy (velocity q1) - vy (velocity q2);
                 dvn = dvx * nx + dvy * ny
             in if dvn > 0 then (q1, q2)
                else
                  let restitution = PLAYER_BOUNCE_FACTOR * bounceMult;
                      totalMass = mass q1 + mass q2;
                      impulse0 = - (1 + restitution) * dvn / totalMass;
                      pushMultiplier0 = COLLISION_PUSH_FORCE * damageMult;
                      pushMult = (if isDashing q1 \<or> isDashing q2
                                  then pushMultiplier0 * COLLISION_DASH_PUSH_MULTIPLIER
                                  else pushMultiplier0);
                      impulse = impulse0 * pushMult;
                      impulseX = impulse * nx;
                      impulseY = impulse * ny;
                      r1 = q1\<lparr>velocity := Vector2 (vx (velocity q1) + impulseX * mass q2)
                                                (vy (velocity q1) + impulseY * mass q2)\<rparr>;
                      r2 = q2\<lparr>velocity := Vector2 (vx (velocity q2) - impulseX * mass q1)
                                                (vy (velocity q2) - impulseY * mass q1)\<rparr>
                  in if damageMult > 15 / 10
                     then (r1\<lparr>velocity := multiply 1 (velocity r1)\<rparr>,
                           r2\<lparr>velocity := multiply 1 (velocity r2)\<rparr>)
                     else (r1, r2))"

text \<open>
  The index pairs \<open>i < j\<close> in the order of the nested loops
  \<open>for (i = 0; i < n; i++) for (j = i + 1; j < n; j++)\<close>.
\<close>

definition index_pairs :: "nat \<Rightarrow> (nat \<times> nat) list" where
  "index_pairs n = concat (map (\<lambda>i. map (\<lambda>j. (i, j)) [i + 1..<n]) [0..<n])"

definition processCollisions_step :: "real \<Rightarrow> real \<Rightarrow> nat \<times> nat \<Rightarrow> player list \<Rightarrow> player list" where
  "processCollisions_step damageMult bounceMult ij ps =
     (let p1 = ps ! fst ij; p2 = ps ! snd ij
      in if checkCircleCollision p1 p2
         then (case resolveCollision p1 p2 damageMult bounceMult of
                 (r1, r2) \<Rightarrow> ps[fst ij := r1, snd ij := r2])
         else ps)"

definition processCollisions :: "player list \<Rightarrow> real \<Rightarrow> real \<Rightarrow> player list" where
  "processCollisions ps damageMult bounceMult =
     fold (processCollisions_step damageMult bounceMult) (index_pairs (length ps)) ps"

definition checkArenaBoundary :: "player \<Rightarrow> arena \<Rightarrow> bool" where
  "checkArenaBoundary p a =
     (if \<not> isAlive p then False
      else if isEliminated a (vx (position p)) (vy (position p)) (radius p) then True
      else False)"

subsection \<open>core/RoundManager.js\<close>

datatype rstate = waiting | countdown | playing | roundEnd | matchEnd

datatype reason = knockout | timeout

text \<open>
  The callbacks of the round manager, as the notifications it sends: the driver registers
  a handler for each of them, so \<open>if (this.onX) this.onX(...)\<close> always calls.  A player
  argument is the player's index in the list.  \<open>onCentrifugeStart\<close> is the handler the
  driver registers in \<open>setupRoundCallbacks\<close>.
\<close>

datatype event =
    onCountdownTick int
  | onRoundStart nat "modifier option"
  | onModifierAnnounce modifier
  | onEscalation string string
  | onFinalCountdown int
  | onCentrifugeStart
  | onRoundEnd "nat option" nat reason
  | onMatchEnd nat

record round_manager =
  currentRound :: nat
  state :: rstate
  countdownValue :: int
  countdownTimer :: real
  roundEndTimer :: real
  winner :: "nat option"
  roundWinner :: "nat option"
  roundTime :: real
  currentModifier :: "modifier option"
  damageMultiplier :: real
  instabilityActive :: bool
  finalCountdownActive :: bool
  finalCountdownTime :: real

definition new_RoundManager :: round_manager where
  "new_RoundManager =
     \<lparr>currentRound = 0, state = waiting, countdownValue = 0, countdownTimer = 0,
      roundEndTimer = 0, winner = None, roundWinner = None, roundTime = 0,
      currentModifier = None, damageMultiplier = BASE_DAMAGE_MULTIPLIER,
      instabilityActive = False, finalCountdownActive = False, finalCountdownTime = 0\<rparr>"

definition modifierKeys :: "string list" where
  "modifierKeys = filter (\<lambda>k. k \<noteq> ''NONE'') (map fst MODIFIERS)"

text \<open>
  \<open>getRandomModifier()\<close>; \<open>rnd\<close> holds the two readings of \<open>Math.random()\<close>.  An index
  outside the key list reads \<open>undefined\<close>, and the result is an object whose only
  property is an undefined \<open>key\<close>.
\<close>

definition getRandomModifier :: "real \<times> real \<Rightarrow> modifier" where
  "getRandomModifier rnd =
     (if fst rnd < 4 / 10 then MODIFIERS_NONE
      else let idx = \<lfloor>snd rnd * real (length modifierKeys)\<rfloor>
           in if 0 \<le> idx \<and> idx < int (length modifierKeys)
              then (let k = modifierKeys ! nat idx
                    in case map_of MODIFIERS k of
                         Some m \<Rightarrow> m\<lparr>key := Some k\<rparr>
                       | None \<Rightarrow> no_fields)
              else no_fields)"

definition startCountdown :: "real \<times> real \<Rightarrow> round_manager \<Rightarrow> round_manager \<times> event list" where
  "startCountdown rnd rm =
     (let rm1 = rm\<lparr>countdownValue := COUNTDOWN_DURATION, countdownTimer := 1000,
                   state := countdown, roundWinner := None,
                   roundTime := 0, damageMultiplier := BASE_DAMAGE_MULTIPLIER,
                   instabilityActive := False, finalCountdownActive := False,
                   finalCountdownTime := 0\<rparr>;
          rm2 = (if currentRound rm1 \<ge> 1
                 then rm1\<lparr>currentModifier := Some (getRandomModifier rnd)\<rparr>
                 else rm1\<lparr>currentModifier := Some MODIFIERS_NONE\<rparr>)
      in (rm2, [onCountdownTick (countdownValue rm2)]))"

text \<open>
  \<open>startMatch()\<close> sets \<open>currentRound\<close> to 0 first, so its \<open>startCountdown\<close> never reads
  \<open>Math.random()\<close>; the pair passed on is not used.
\<close>

definition startMatch :: "round_manager \<Rightarrow> round_manager \<times> event list" where
  "startMatch rm =
     startCountdown (0, 0) (rm\<lparr>currentRound := 0, state := countdown, winner := None\<rparr>)"

definition updateCountdown :: "real \<Rightarrow> round_manager \<Rightarrow> round_manager \<times> event list" where
  "updateCountdown deltaTime rm =
     (let rm1 = rm\<lparr>countdownTimer := countdownTimer rm - deltaTime\<rparr>
      in if countdownTimer rm1 \<le> 0 then
           (let rm2 = rm1\<lparr>countdownValue := countdownValue rm1 - 1\<rparr>
            in if countdownValue rm2 \<le> 0 then
                 (let rm3 = rm2\<lparr>state := playing, currentRound := currentRound rm2 + 1,
                               roundTime := 0\<rparr>
                  in (rm3,
                      [onRoundStart (currentRound rm3) (currentModifier rm3)] @
                      (case currentModifier rm3 of
                         None \<Rightarrow> []
                       | Some m \<Rightarrow>
                           if name m \<noteq> Some ''Standard'' then [onModifierAnnounce m] else []) @
                      [onCountdownTick 0]))
               else (rm2\<lparr>countdownTimer := 1000\<rparr>, [onCountdownTick (countdownValue rm2)]))
         else (rm1, []))"

definition updateDamageMultiplier :: "round_manager \<Rightarrow> round_manager" where
  "updateDamageMultiplier rm =
     (let rampStart = DAMAGE_RAMP_START;
          rampDuration = DAMAGE_RAMP_DURATION;
          baseMultiplier = BASE_DAMAGE_MULTIPLIER;
          maxMultiplier = MAX_DAMAGE_MULTIPLIER
      in if roundTime rm < rampStart then rm\<lparr>damageMultiplier := baseMultiplier\<rparr>
         else let progress = min 1 ((roundTime rm - rampStart) / rampDuration)
              in rm\<lparr>damageMultiplier :=
                      baseMultiplier + (maxMultiplier - baseMultiplier) * progress\<rparr>)"

definition getInstabilityForce :: "round_manager \<Rightarrow> real \<Rightarrow> real \<Rightarrow> vec" where
  "getInstabilityForce rm x y =
     (if \<not> instabilityActive rm then Vector2 0 0
      else
        let t = roundTime rm * (1 / 1000);
            intensity = min 1 ((roundTime rm - INSTABILITY_START) / 5000);
            maxForce = INSTABILITY_MAX_FORCE * intensity;
            forceAngle = sin (t * 2 + x * (1 / 100)) * cos (t * (15 / 10) + y * (1 / 100)) * pi * 2;
            forceMag = (sin (t * 3 + x * (2 / 100) + y * (2 / 100)) * (5 / 10) + 5 / 10) * maxForce
        in Vector2 (cos forceAngle * forceMag) (sin forceAngle * forceMag))"

text \<open>\<open>players.filter(p => p.isAlive)\<close>, as the indices of the living players in list order.\<close>

definition alivePlayers :: "player list \<Rightarrow> nat list" where
  "alivePlayers ps = filter (\<lambda>i. isAlive (ps ! i)) [0..<length ps]"

text \<open>
  The search loop of \<open>forceRoundEnd\<close>: the pair is \<open>(closestPlayer, closestDist)\<close>, with
  \<open>None\<close> for \<open>null\<close> and for \<open>Infinity\<close>.  \<open>player.distanceFromCenter || 0\<close> reads an
  unset (or zero) property as 0.
\<close>

definition distOrZero :: "player \<Rightarrow> real" where
  "distOrZero p = (case distanceFromCenter p of None \<Rightarrow> 0 | Some d \<Rightarrow> d)"

definition closest_step :: "player list \<Rightarrow> nat \<Rightarrow> nat option \<times> real option \<Rightarrow> nat option \<times> real option" where
  "closest_step ps i acc =
     (let d = distOrZero (ps ! i)
      in if (case snd acc of None \<Rightarrow> True | Some closestDist \<Rightarrow> d < closestDist)
         then (Some i, Some d) else acc)"

definition closestPlayer :: "player list \<Rightarrow> nat list \<Rightarrow> nat option" where
  "closestPlayer ps alive = fst (fold (closest_step ps) alive (None, None))"

definition eliminate_others :: "real \<Rightarrow> nat option \<Rightarrow> nat list \<Rightarrow> player list \<Rightarrow> player list" where
  "eliminate_others now keep alive ps =
     fold (\<lambda>i qs. if Some i \<noteq> keep then qs[i := eliminate now (qs ! i)] else qs) alive ps"

definition award :: "nat option \<Rightarrow> player list \<Rightarrow> player list" where
  "award w ps = (case w of None \<Rightarrow> ps | Some i \<Rightarrow> ps[i := addWin (ps ! i)])"

definition forceRoundEnd :: "player list \<Rightarrow> real \<Rightarrow> round_manager \<Rightarrow> round_manager \<times> player list \<times> event list" where
  "forceRoundEnd ps now rm =
     (let alive = alivePlayers ps;
          res = (if length alive = 0 then (None, ps)
                 else if length alive = 1 then (Some (alive ! 0), ps)
                 else (let c = closestPlayer ps alive
                       in (c, eliminate_others now c alive ps)));
          rm1 = rm\<lparr>roundWinner := fst res\<rparr>;
          ps1 = award (roundWinner rm1) (snd res);
          rm2 = rm1\<lparr>state := roundEnd, roundEndTimer := ROUND_END_DELAY\<rparr>
      in (rm2, ps1, [onRoundEnd (roundWinner rm2) (currentRound rm2) timeout]))"

definition checkRoundEnd :: "player list \<Rightarrow> round_manager \<Rightarrow> round_manager \<times> player list \<times> event list" where
  "checkRoundEnd ps rm =
     (let alive = alivePlayers ps
      in if length alive \<le> 1 then
           (let rm1 = rm\<lparr>roundWinner := (if length alive = 1 then Some (alive ! 0) else None)\<rparr>;
                ps1 = award (roundWinner rm1) ps;
                rm2 = rm1\<lparr>state := roundEnd, roundEndTimer := ROUND_END_DELAY\<rparr>
            in (rm2, ps1, [onRoundEnd (roundWinner rm2) (currentRound rm2) knockout]))
         else (rm, ps, []))"

definition escalate_instability :: "round_manager \<Rightarrow> round_manager \<times> event list" where
  "escalate_instability rm =
     (if \<not> instabilityActive rm \<and> roundTime rm \<ge> INSTABILITY_START
      then (rm\<lparr>instabilityActive := True\<rparr>,
            [onEscalation ''instability'' ''CHAOS MODE! Random forces active!''])
      else (rm, []))"

definition start_finalCountdown :: "round_manager \<Rightarrow> round_manager \<times> event list" where
  "start_finalCountdown rm =
     (if \<not> finalCountdownActive rm \<and> roundTime rm \<ge> FINAL_COUNTDOWN_START
      then (let rm1 = rm\<lparr>finalCountdownActive := True,
                          finalCountdownTime := FINAL_COUNTDOWN_DURATION\<rparr>
            in (rm1, [onFinalCountdown \<lceil>finalCountdownTime rm1 / 1000\<rceil>]))
      else (rm, []))"

text \<open>
  \<open>updatePlaying(deltaTime, players)\<close>: the round clock, the damage ramp, the two latches
  (the helper definitions above, in the order of the source), the final countdown with
  the forced end, and the normal round-end check.
\<close>

definition updatePlaying :: "real \<Rightarrow> player list \<Rightarrow> real \<Rightarrow> round_manager \<Rightarrow> round_manager \<times> player list \<times> event list" where
  "updatePlaying deltaTime ps now rm =
     (let rm1 = updateDamageMultiplier (rm\<lparr>roundTime := roundTime rm + deltaTime\<rparr>);
          r2 = escalate_instability rm1;
          r3 = start_finalCountdown (fst r2);
          ev = snd r2 @ snd r3;
          rm3 = fst r3
      in if finalCountdownActive rm3 then
           (let rm4 = rm3\<lparr>finalCountdownTime := finalCountdownTime rm3 - deltaTime\<rparr>;
                secondsLeft = \<lceil>finalCountdownTime rm4 / 1000\<rceil>;
                ev4 = ev @ [onFinalCountdown secondsLeft]
            in if finalCountdownTime rm4 \<le> 0
               then (case forceRoundEnd ps now rm4 of
                       (rm5, ps5, ev5) \<Rightarrow> (rm5, ps5, ev4 @ ev5))
               else (case checkRoundEnd ps rm4 of
                       (rm5, ps5, ev5) \<Rightarrow> (rm5, ps5, ev4 @ ev5)))
         else (case checkRoundEnd ps rm3 of
                 (rm5, ps5, ev5) \<Rightarrow> (rm5, ps5, ev @ ev5)))"

text \<open>\<open>players.find(p => p.hasWonMatch())\<close>: the first index, if any.\<close>

definition find_matchWinner :: "player list \<Rightarrow> nat option" where
  "find_matchWinner ps =
     (case filter (\<lambda>i. hasWonMatch (ps ! i)) [0..<length ps] of
        [] \<Rightarrow> None
      | i # _ \<Rightarrow> Some i)"

definition updateRoundEnd :: "real \<Rightarrow> player list \<Rightarrow> real \<times> real \<Rightarrow> round_manager \<Rightarrow> round_manager \<times> event list" where
  "updateRoundEnd deltaTime ps rnd rm =
     (let rm1 = rm\<lparr>roundEndTimer := roundEndTimer rm - deltaTime\<rparr>
      in if roundEndTimer rm1 \<le> 0 then
           (case find_matchWinner ps of
              Some w \<Rightarrow>
                (rm1\<lparr>winner := Some w, state := matchEnd, roundEndTimer := MATCH_END_DELAY\<rparr>,
                 [onMatchEnd w])
            | None \<Rightarrow> startCountdown rnd rm1)
         else (rm1, []))"

text \<open>\<open>update(deltaTime, players)\<close>: the dispatch on the state.\<close>

definition RoundManager_update :: "real \<Rightarrow> player list \<Rightarrow> real \<times> real \<Rightarrow> real \<Rightarrow> round_manager \<Rightarrow> round_manager \<times> player list \<times> event list" where
  "RoundManager_update deltaTime ps rnd now rm =
     (case state rm of
        countdown \<Rightarrow> (case updateCountdown deltaTime rm of (rm', ev) \<Rightarrow> (rm', ps, ev))
      | playing \<Rightarrow> updatePlaying deltaTime ps now rm
      | roundEnd \<Rightarrow> (case updateRoundEnd deltaTime ps rnd rm of (rm', ev) \<Rightarrow> (rm', ps, ev))
      | matchEnd \<Rightarrow> (rm, ps, [])
      | waiting \<Rightarrow> (rm, ps, []))"

definition isPlaying :: "round_manager \<Rightarrow> bool" where
  "isPlaying rm = (state rm = playing)"

definition isWaiting :: "round_manager \<Rightarrow> bool" where
  "isWaiting rm = (state rm = waiting)"

definition isMatchOver :: "round_manager \<Rightarrow> bool" where
  "isMatchOver rm = (state rm = matchEnd)"

subsection \<open>core/Game.js\<close>

text \<open>
  The driver's simulation state.  Rendering, particles, screen effects, the scoreboard
  and the input devices are collaborators: the per-tick input of each player is an
  argument of \<open>fixedUpdate\<close>.
\<close>

record game =
  roundManager :: round_manager
  arena :: arena
  players :: "player list"
  playerCount :: nat
  activeModifier :: "modifier option"
  roundResetDone :: bool

text \<open>
  \<open>initializePlayers()\<close>; \<open>phases i\<close> is the random pulse phase of player \<open>i\<close>.  The
  player count is 2 in the constructor and clamped to 2..4 by \<open>setPlayerCount\<close>, so the
  spawn point of every player is one of the four predefined ones.
\<close>

definition spawn_of :: "arena \<Rightarrow> nat \<Rightarrow> nat \<Rightarrow> vec" where
  "spawn_of a n i = (case getSpawnPositions n a ! i of Some s \<Rightarrow> s | None \<Rightarrow> Vector2 0 0)"

definition initializePlayers :: "(nat \<Rightarrow> real) \<Rightarrow> game \<Rightarrow> game" where
  "initializePlayers phases g =
     g\<lparr>players :=
         map (\<lambda>i. let spawn = spawn_of (arena g) (playerCount g) i
                  in new_Player i (vx spawn) (vy spawn) (phases i))
           [0..<playerCount g],
       roundResetDone := False\<rparr>"

definition new_Game :: "(nat \<Rightarrow> real) \<Rightarrow> game" where
  "new_Game phases =
     initializePlayers phases
       \<lparr>roundManager = new_RoundManager,
        arena = new_Arena CANVAS_WIDTH CANVAS_HEIGHT,
        players = [], playerCount = 2, activeModifier = None, roundResetDone = False\<rparr>"

text \<open>
  The handlers of \<open>setupRoundCallbacks\<close>, restricted to the simulation state.  The round
  manager calls them in the middle of its update; they touch only fields the round
  manager never reads, so the model runs them on the notifications after the update.
  The keyed modifiers always carry their own numeric field.
\<close>

definition handle_event :: "event \<Rightarrow> game \<Rightarrow> game" where
  "handle_event e g =
     (case e of
        onRoundStart r m \<Rightarrow>
          (let g1 = g\<lparr>roundResetDone := False, activeModifier := m\<rparr>
           in case m of
                None \<Rightarrow> g1
              | Some md \<Rightarrow>
                  if key md = Some ''TINY_ARENA'' then
                    (case arenaScale_mod md of
                       Some sc \<Rightarrow> g1\<lparr>arena := setScale sc (arena g1)\<rparr>
                     | None \<Rightarrow> g1)
                  else if key md = Some ''FAST_SHRINK'' then
                    (case shrinkSpeed md of
                       Some sp \<Rightarrow> g1\<lparr>arena := setShrinkSpeed sp (arena g1)\<rparr>
                     | None \<Rightarrow> g1)
                  else g1)
      | onCentrifugeStart \<Rightarrow> g\<lparr>arena := activateCentrifuge (arena g)\<rparr>
      | onRoundEnd w r rs \<Rightarrow> g\<lparr>activeModifier := None\<rparr>
      | _ \<Rightarrow> g)"

definition respawn :: "arena \<Rightarrow> nat \<Rightarrow> bool \<Rightarrow> player list \<Rightarrow> player list" where
  "respawn a n clearWins ps =
     map (\<lambda>i. let spawn = spawn_of a n i;
                  p1 = setSpawnPosition (vx spawn) (vy spawn) (ps ! i);
                  p2 = (if clearWins then p1\<lparr>wins := 0\<rparr> else p1)
              in Player_reset p2)
       [0..<length ps]"

definition startNewMatch :: "game \<Rightarrow> game \<times> event list" where
  "startNewMatch g =
     (let a = Arena_reset (arena g);
          ps = respawn a (playerCount g) True (players g);
          r = startMatch (roundManager g);
          g1 = g\<lparr>arena := a, players := ps, roundResetDone := True, roundManager := fst r\<rparr>
      in (fold handle_event (snd r) g1, snd r))"

definition resetForRound :: "game \<Rightarrow> game" where
  "resetForRound g =
     (let a = Arena_reset (arena g)
      in g\<lparr>arena := a, players := respawn a (playerCount g) False (players g)\<rparr>)"

text \<open>\<open>modifier?.field || 1\<close>: 1 when there is no modifier, no such field, or the field is 0.\<close>

definition modifier_value :: "(modifier \<Rightarrow> real option) \<Rightarrow> modifier option \<Rightarrow> real" where
  "modifier_value f m =
     (case m of
        None \<Rightarrow> 1
      | Some md \<Rightarrow> (case f md of None \<Rightarrow> 1 | Some v \<Rightarrow> if v = 0 then 1 else v))"

definition add_force :: "vec \<Rightarrow> player \<Rightarrow> player" where
  "add_force f p =
     p\<lparr>velocity := Vector2 (vx (velocity p) + vx f) (vy (velocity p) + vy f)\<rparr>"

text \<open>
  The distance from the arena centre that \<open>fixedUpdate\<close> stores in each player:
  \<open>Math.sqrt(Math.pow(x - centerX, 2) + Math.pow(y - centerY, 2))\<close>.
\<close>

definition centerDistance :: "arena \<Rightarrow> player \<Rightarrow> real" where
  "centerDistance a p =
     sqrt ((vx (position p) - centerX a)\<^sup>2 + (vy (position p) - centerY a)\<^sup>2)"

text \<open>
  The environmental forces of \<open>fixedUpdate\<close>, each applied to living players only: the
  centrifuge push, the sudden-death pull (not in centrifuge mode), the instability
  force, and the push away from the centre for players idle too long.
\<close>

definition store_distance :: "arena \<Rightarrow> player \<Rightarrow> player" where
  "store_distance a p = p\<lparr>distanceFromCenter := Some (centerDistance a p)\<rparr>"

definition centrifuge_push :: "arena \<Rightarrow> player \<Rightarrow> player" where
  "centrifuge_push a p =
     (if isAlive p \<and> centrifugeMode a
      then add_force (getCentrifugeForce a (vx (position p)) (vy (position p))) p
      else p)"

definition suddenDeath_pull :: "arena \<Rightarrow> player \<Rightarrow> player" where
  "suddenDeath_pull a p =
     (if isAlive p \<and> suddenDeathActive a \<and> \<not> centrifugeMode a
      then add_force (getSuddenDeathForce a (vx (position p)) (vy (position p))) p
      else p)"

definition instability_push :: "round_manager \<Rightarrow> player \<Rightarrow> player" where
  "instability_push rm p =
     (if isAlive p \<and> instabilityActive rm
      then add_force (getInstabilityForce rm (vx (position p)) (vy (position p))) p
      else p)"

definition idle_penalty :: "arena \<Rightarrow> player \<Rightarrow> player" where
  "idle_penalty a p =
     (if isIdle p \<and> isAlive p then
        (let dirX = vx (position p) - centerX a;
             dirY = vy (position p) - centerY a;
             dist = sqrt (dirX * dirX + dirY * dirY)
         in if dist > 1
            then add_force (Vector2 ((dirX / dist) * (15 / 100)) ((dirY / dist) * (15 / 100))) p
            else p)
      else p)"

text \<open>
  The body of the loop over the players in \<open>fixedUpdate\<close>: input, physics, the stored
  distance, then the forces in the order of the source.
\<close>

definition process_player :: "real \<Rightarrow> input_t \<Rightarrow> game \<Rightarrow> player \<Rightarrow> player" where
  "process_player deltaTime inp g p0 =
     (let a = arena g;
          rm = roundManager g;
          frictionMod = modifier_value friction (activeModifier g);
          speedMod = modifier_value speedMultiplier (activeModifier g);
          p1 = fst (handleInput inp deltaTime speedMod p0);
          p2 = Player_update deltaTime (Some a) frictionMod p1
      in idle_penalty a (instability_push rm (suddenDeath_pull a
           (centrifuge_push a (store_distance a p2)))))"

definition collision_effects_step :: "real \<Rightarrow> real \<Rightarrow> real \<Rightarrow> nat \<times> nat \<Rightarrow> player list \<Rightarrow> player list" where
  "collision_effects_step damageMult pushMod bounceMod ij ps =
     (let p1 = ps ! fst ij; p2 = ps ! snd ij
      in if \<not> isAlive p1 \<or> \<not> isAlive p2 then ps
         else if checkCircleCollision p1 p2 then
           (let relVelX = vx (velocity p1) - vx (velocity p2);
                relVelY = vy (velocity p1) - vy (velocity p2);
                intensity = sqrt (relVelX * relVelX + relVelY * relVelY) / 10;
                h1 = (if intensity > 3 / 10 then onHit p1 else p1);
                h2 = (if intensity > 3 / 10 then onHit p2 else p2)
            in case resolveCollision h1 h2 (damageMult * pushMod) bounceMod of
                 (r1, r2) \<Rightarrow> ps[fst ij := r1, snd ij := r2])
         else ps)"

definition processCollisionsWithEffects :: "real \<Rightarrow> real \<Rightarrow> game \<Rightarrow> player list" where
  "processCollisionsWithEffects pushMod bounceMod g =
     (let dm = damageMultiplier (roundManager g);
          damageMult = (if dm = 0 then 1 else dm)
      in fold (collision_effects_step damageMult pushMod bounceMod)
           (index_pairs (length (players g))) (players g))"

text \<open>
  The last loop of \<open>fixedUpdate\<close>: a player past the boundary is eliminated, and
  \<open>onPlayerEliminated\<close> makes the border glow.
\<close>

definition boundary_step :: "real \<Rightarrow> player \<Rightarrow> arena \<times> player list \<Rightarrow> arena \<times> player list" where
  "boundary_step now p acc =
     (if checkArenaBoundary p (fst acc)
      then (triggerBorderGlow (fst acc), snd acc @ [eliminate now p])
      else (fst acc, snd acc @ [p]))"

definition checkBoundaries :: "real \<Rightarrow> arena \<Rightarrow> player list \<Rightarrow> arena \<times> player list" where
  "checkBoundaries now a ps = fold (boundary_step now) ps (a, [])"

definition fixedUpdate :: "real \<Rightarrow> (nat \<Rightarrow> input_t) \<Rightarrow> real \<times> real \<Rightarrow> real \<Rightarrow> game \<Rightarrow> game \<times> event list" where
  "fixedUpdate deltaTime inputs rnd now g =
     (case RoundManager_update deltaTime (players g) rnd now (roundManager g) of
        (rm', ps', evs) \<Rightarrow>
          (let g1 = fold handle_event evs (g\<lparr>roundManager := rm', players := ps'\<rparr>);
               g2 = g1\<lparr>arena := Arena_update deltaTime (isPlaying (roundManager g1)) (arena g1)\<rparr>
           in if \<not> isPlaying (roundManager g2) then
                (if state (roundManager g2) = countdown \<and> \<not> roundResetDone g2
                 then ((resetForRound g2)\<lparr>roundResetDone := True\<rparr>, evs)
                 else (g2, evs))
              else
                (let pushMod = modifier_value pushMultiplier (activeModifier g2);
                     bounceMod = modifier_value bounceMultiplier (activeModifier g2);
                     ps3 = map (\<lambda>p. process_player deltaTime (inputs (pid p)) g2 p) (players g2);
                     aliveCount = int (length (filter isAlive ps3));
                     g3 = g2\<lparr>players := ps3, arena := setAliveCount aliveCount (arena g2)\<rparr>;
                     g4 = g3\<lparr>players := processCollisionsWithEffects pushMod bounceMod g3\<rparr>;
                     r = checkBoundaries now (arena g4) (players g4)
                 in (g4\<lparr>arena := fst r, players := snd r\<rparr>, evs))))"

definition setPlayerCount :: "int \<Rightarrow> (nat \<Rightarrow> real) \<Rightarrow> game \<Rightarrow> game" where
  "setPlayerCount count phases g =
     (let g1 = g\<lparr>playerCount := nat (max 2 (min 4 count))\<rparr>;
          g2 = g1\<lparr>arena := Arena_reset (arena g1)\<rparr>;
          g3 = initializePlayers phases g2
      in g3\<lparr>roundResetDone := False\<rparr>)"

text \<open>
  What can happen to a running game: the start key (honoured while waiting or after a
  match), one fixed step, a click on a player-count button.
\<close>

datatype game_op =
    PressStart
  | Tick real "nat \<Rightarrow> input_t" "real \<times> real" real
  | SetPlayerCount int "nat \<Rightarrow> real"

definition apply_op :: "game_op \<Rightarrow> game \<Rightarrow> game \<times> event list" where
  "apply_op op g =
     (case op of
        PressStart \<Rightarrow>
          if isWaiting (roundManager g) \<or> isMatchOver (roundManager g)
          then startNewMatch g else (g, [])
      | Tick deltaTime inputs rnd now \<Rightarrow> fixedUpdate deltaTime inputs rnd now g
      | SetPlayerCount count phases \<Rightarrow> (setPlayerCount count phases g, []))"

text \<open>A run: the state after the operations, and every notification sent on the way.\<close>

fun run_game :: "game_op list \<Rightarrow> game \<times> event list \<Rightarrow> game \<times> event list" where
  "run_game [] acc = acc"
| "run_game (op # ops) acc =
     (case apply_op op (fst acc) of (g', evs) \<Rightarrow> run_game ops (g', snd acc @ evs))"

subsection \<open>Operations on the arena, and the clamp of the specification\<close>

text \<open>
  The mutators of \<open>Arena\<close> as data, so that a sequence of calls is a list.  Every
  operation but \<open>AReset\<close> is one the driver performs within a round.
\<close>

datatype arena_op =
    AUpdate real bool
  | ASetAliveCount int
  | ASetScale real
  | ASetShrinkSpeed real
  | AActivateCentrifuge
  | ATriggerBorderGlow
  | AReset

definition apply_arena_op :: "arena_op \<Rightarrow> arena \<Rightarrow> arena" where
  "apply_arena_op op a =
     (case op of
        AUpdate deltaTime isPl \<Rightarrow> Arena_update deltaTime isPl a
      | ASetAliveCount count \<Rightarrow> setAliveCount count a
      | ASetScale scale \<Rightarrow> setScale scale a
      | ASetShrinkSpeed m \<Rightarrow> setShrinkSpeed m a
      | AActivateCentrifuge \<Rightarrow> activateCentrifuge a
      | ATriggerBorderGlow \<Rightarrow> triggerBorderGlow a
      | AReset \<Rightarrow> Arena_reset a)"

definition in_round :: "arena_op \<Rightarrow> bool" where
  "in_round op = (op \<noteq> AReset)"

text \<open>
  The specification's \<open>clamp(v, lo, hi)\<close>, written from its words; the source computes
  \<open>Math.min(hi, Math.max(lo, v))\<close> (in \<open>clampedFriction\<close> above).
\<close>

definition clamp :: "real \<Rightarrow> real \<Rightarrow> real \<Rightarrow> real" where
  "clamp v lo hi = (if v < lo then lo else if v > hi then hi else v)"

text \<open>
  The shrink floor: the extents recorded in \<open>width\<close> and \<open>height\<close> are those of \<open>bounds\<close>
  and are at least \<open>minSizePercent * arenaScale\<close> times the original extents; the
  original extents, the scale and the room below a \<open>minSizePercent\<close> of 1 are not
  negative.
\<close>

definition floor_inv :: "arena \<Rightarrow> bool" where
  "floor_inv a =
     (0 \<le> right (originalBounds a) - left (originalBounds a) \<and>
      0 \<le> bottom (originalBounds a) - top_y (originalBounds a) \<and>
      minSizePercent a \<le> 1 \<and> 0 \<le> arenaScale a \<and>
      right (bounds a) - left (bounds a) = width a \<and>
      bottom (bounds a) - top_y (bounds a) = height a \<and>
      minSizePercent a * arenaScale a * (right (originalBounds a) - left (originalBounds a))
        \<le> width a \<and>
      minSizePercent a * arenaScale a * (bottom (originalBounds a) - top_y (originalBounds a))
        \<le> height a)"

text \<open>
  The search loop of \<open>forceRoundEnd\<close> once it holds a candidate \<open>c\<close>: a later index
  replaces the candidate only when its value is strictly smaller.
\<close>

fun first_min :: "(nat \<Rightarrow> real) \<Rightarrow> nat \<Rightarrow> nat list \<Rightarrow> nat" where
  "first_min f c [] = c"
| "first_min f c (x # xs) = first_min f (if f x < f c then x else c) xs"

text \<open>
  What the forced end does to a list with two or more living players, as a relation
  between the list before, the list after and the index \<open>k\<close> of the player kept: \<open>k\<close> is
  alive, no living player has a smaller stored distance, every living player listed
  before \<open>k\<close> has a strictly larger one, \<open>k\<close> gets the win, every other living player is
  eliminated, and the dead are left as they were.
\<close>

definition forced_end_result :: "player list \<Rightarrow> real \<Rightarrow> player list \<Rightarrow> nat \<Rightarrow> bool" where
  "forced_end_result ps now ps' k =
     (k < length ps \<and> isAlive (ps ! k)
      \<and> (\<forall>j. j < length ps \<and> isAlive (ps ! j) \<longrightarrow> distOrZero (ps ! k) \<le> distOrZero (ps ! j))
      \<and> (\<forall>j. j < k \<and> isAlive (ps ! j) \<longrightarrow> distOrZero (ps ! k) < distOrZero (ps ! j))
      \<and> length ps' = length ps
      \<and> ps' ! k = addWin (ps ! k)
      \<and> (\<forall>j. j < length ps \<and> j \<noteq> k \<and> isAlive (ps ! j) \<longrightarrow> ps' ! j = eliminate now (ps ! j))
      \<and> (\<forall>j. j < length ps \<and> \<not> isAlive (ps ! j) \<longrightarrow> ps' ! j = ps ! j))"




text \<open>
  The geometry the boundary claim speaks of.  The actor's bounding circle is the closed
  disc of radius \<open>r\<close> around \<open>(x, y)\<close>; the region inside the boundary is the closed
  rectangle of \<open>bounds\<close>, or in centrifuge mode the closed disc of \<open>centrifugeRadius\<close>
  around the centre.  The circle is partially outside when one of its points is not
  inside the boundary, completely outside when none of its points is.
\<close>

definition in_circle :: "real \<Rightarrow> real \<Rightarrow> real \<Rightarrow> real \<times> real \<Rightarrow> bool" where
  "in_circle x y r q = (sqrt ((fst q - x)\<^sup>2 + (snd q - y)\<^sup>2) \<le> r)"

definition inside_boundary :: "arena \<Rightarrow> real \<times> real \<Rightarrow> bool" where
  "inside_boundary a q =
     (if centrifugeMode a
      then sqrt ((fst q - centerX a)\<^sup>2 + (snd q - centerY a)\<^sup>2) \<le> centrifugeRadius a
      else left (bounds a) \<le> fst q \<and> fst q \<le> right (bounds a) \<and>
           top_y (bounds a) \<le> snd q \<and> snd q \<le> bottom (bounds a))"

definition partially_outside :: "arena \<Rightarrow> real \<Rightarrow> real \<Rightarrow> real \<Rightarrow> bool" where
  "partially_outside a x y r = (\<exists>q. in_circle x y r q \<and> \<not> inside_boundary a q)"

definition completely_outside :: "arena \<Rightarrow> real \<Rightarrow> real \<Rightarrow> real \<Rightarrow> bool" where
  "completely_outside a x y r = (\<forall>q. in_circle x y r q \<longrightarrow> \<not> inside_boundary a q)"

text \<open>Every dead player of a list stands still.\<close>

definition dead_frozen :: "player list \<Rightarrow> bool" where
  "dead_frozen ps = (\<forall>p\<in>set ps. \<not> isAlive p \<longrightarrow> velocity p = Vector2 0 0)"


subsection \<open>Example states\<close>

text \<open>Two players of a two-player game, both knocked out at clock reading 5.\<close>

definition dead2 :: "player list" where
  "dead2 = [eliminate 5 (new_Player 0 130 350 0), eliminate 5 (new_Player 1 870 350 0)]"

text \<open>The arena of the 1000 x 700 canvas, thirteen seconds into a round.\<close>

definition late_arena :: arena where
  "late_arena = (new_Arena 1000 700)\<lparr>roundTime_arena := 13000\<rparr>"

text \<open>
  Three living players: the first 50 away from the centre, the second with no stored
  distance yet, the third at distance 0.
\<close>

definition trio :: "player list" where
  "trio = [(new_Player 0 130 350 0)\<lparr>distanceFromCenter := Some 50\<rparr>,
           new_Player 1 870 350 0,
           (new_Player 2 500 130 0)\<lparr>distanceFromCenter := Some 0\<rparr>]"






text \<open>The arena of the 1000 x 700 canvas, once in centrifuge mode (radius 270).\<close>

definition spinning_arena :: arena where
  "spinning_arena = activateCentrifuge (new_Arena 1000 700)"

text \<open>
  A whole round of a two-player match in which nobody touches the controls: the start
  key, three countdown ticks of one second, then 1501 fixed steps (just over 25
  seconds).
\<close>

definition idle_inputs :: "nat \<Rightarrow> input_t" where
  "idle_inputs i = \<lparr>movement = Vector2 0 0, dash = False\<rparr>"

definition whole_round :: "game_op list" where
  "whole_round =
     PressStart # replicate 3 (Tick 1000 idle_inputs (0, 0) 0)
       @ replicate 1501 (Tick FIXED_TIMESTEP idle_inputs (0, 0) 0)"


section \<open>Properties\<close>


subsection \<open>Friction\<close>

text \<open>
  Claim C7.  For every friction multiplier and every living player, the factor that
  \<open>Player.update\<close> multiplies the velocity by is the specification's
  \<open>clamp(baseFriction * frictionMultiplier, 0.85, 0.995)\<close>, with the dash constant 0.98
  as base while dashing and the configured friction otherwise; it lies between 0.85
  and 0.995; and the velocity after the update is the old velocity times that factor,
  limited to the maximum speed.
\<close>

theorem C7_friction_clamped:
  assumes "isAlive p"
  shows "clampedFriction p fm =
           clamp ((if isDashing p then 98 / 100 else PLAYER_FRICTION) * fm) (85 / 100) (995 / 1000)
       \<and> 85 / 100 \<le> clampedFriction p fm \<and> clampedFriction p fm \<le> 995 / 1000
       \<and> velocity (Player_update dt ar fm p) =
           limit (if isDashing p then PLAYER_MAX_SPEED * DASH_SPEED_MULTIPLIER else PLAYER_MAX_SPEED)
             (multiply (clampedFriction p fm) (velocity p))"
proof -
  have a: "clampedFriction p fm =
           clamp ((if isDashing p then 98 / 100 else PLAYER_FRICTION) * fm) (85 / 100) (995 / 1000)"
    by (simp add: clampedFriction_def clamp_def Let_def min_def max_def)
  have b: "85 / 100 \<le> clampedFriction p fm \<and> clampedFriction p fm \<le> 995 / 1000"
    by (simp add: clampedFriction_def Let_def min_def max_def)
  have vis: "\<And>q. velocity (updateVisualEffects dt ar q) = velocity q"
    by (simp add: updateVisualEffects_def Let_def split: option.splits)
  have tr: "velocity (update_trail p) = velocity p" "isDashing (update_trail p) = isDashing p"
    by (simp_all add: update_trail_def Let_def)
  have idl: "\<And>q. velocity (track_idle dt q) = velocity q"
    "\<And>q. isDashing (track_idle dt q) = isDashing q"
    by (simp_all add: track_idle_def Let_def)
  have cf: "\<And>q. clampedFriction q fm =
      min (995 / 1000) (max (85 / 100) ((if isDashing q then 98 / 100 else PLAYER_FRICTION) * fm))"
    by (simp add: clampedFriction_def Let_def)
  have c: "velocity (Player_update dt ar fm p) =
           limit (if isDashing p then PLAYER_MAX_SPEED * DASH_SPEED_MULTIPLIER else PLAYER_MAX_SPEED)
             (multiply (clampedFriction p fm) (velocity p))"
    using assms
    by (simp add: Player_update_def vis integrate_def limit_speed_def apply_friction_def
        Let_def tr idl cf)
  from a b c show ?thesis by blast
qed

theorem C7_friction_clamped_witness:
  "isAlive (new_Player 0 100 100 0)
   \<and> clampedFriction (new_Player 0 100 100 0) (- 7) = 85 / 100
   \<and> velocity (Player_update 16 None (- 7) ((new_Player 0 100 100 0)\<lparr>velocity := Vector2 3 4\<rparr>))
       = Vector2 (255 / 100) (34 / 10)"
proof -
  have h: "isAlive ((new_Player 0 100 100 0)\<lparr>velocity := Vector2 3 4\<rparr>)"
    by (simp add: new_Player_def)
  have e: "clampedFriction (new_Player 0 100 100 0) (- 7) = 85 / 100"
    using C7_friction_clamped [of "new_Player 0 100 100 0" "- 7"]
    by (simp add: new_Player_def clamp_def PLAYER_FRICTION_def)
  have v: "velocity (Player_update 16 None (- 7) ((new_Player 0 100 100 0)\<lparr>velocity := Vector2 3 4\<rparr>))
       = Vector2 (255 / 100) (34 / 10)"
    using C7_friction_clamped [OF h, of "- 7" 16 None]
    by (simp add: new_Player_def clamp_def PLAYER_FRICTION_def PLAYER_MAX_SPEED_def
        limit_def multiply_def magnitudeSquared_def Vector2_def clampedFriction_def Let_def)
  show ?thesis using e v by (simp add: new_Player_def)
qed

subsection \<open>Dash requests during the cooldown\<close>

text \<open>
  Claim C6, as stated, fails: \<open>startDash\<close> has no guard and no return value.  Called on
  a player whose cooldown is still running, it starts a dash: the player is dashing, the
  cooldown is re-armed and the velocity is the dash velocity.
\<close>

theorem C6_startDash_unguarded:
  "dashCooldown ((new_Player 0 100 100 0)\<lparr>dashCooldown := 700\<rparr>) > 0
   \<and> startDash (Vector2 1 0) 1 ((new_Player 0 100 100 0)\<lparr>dashCooldown := 700\<rparr>)
       \<noteq> (new_Player 0 100 100 0)\<lparr>dashCooldown := 700\<rparr>
   \<and> isDashing (startDash (Vector2 1 0) 1 ((new_Player 0 100 100 0)\<lparr>dashCooldown := 700\<rparr>))
   \<and> dashCooldown (startDash (Vector2 1 0) 1 ((new_Player 0 100 100 0)\<lparr>dashCooldown := 700\<rparr>)) = 1500
   \<and> velocity (startDash (Vector2 1 0) 1 ((new_Player 0 100 100 0)\<lparr>dashCooldown := 700\<rparr>))
       = Vector2 18 0"
proof -
  let ?p = "(new_Player 0 100 100 0)\<lparr>dashCooldown := 700\<rparr>"
  have n1: "magnitude \<lparr>vx = 1, vy = 0\<rparr> = 1"
    by (simp add: magnitude_def)
  have n: "normalize_vec \<lparr>vx = 1, vy = 0\<rparr> = \<lparr>vx = 1, vy = 0\<rparr>"
    by (simp add: normalize_vec_def Let_def n1)
  have a: "dashCooldown ?p > 0" by (simp add: new_Player_def)
  have b: "isDashing (startDash (Vector2 1 0) 1 ?p)"
    by (simp add: startDash_def Let_def)
  have c: "dashCooldown (startDash (Vector2 1 0) 1 ?p) = 1500"
    by (simp add: startDash_def Let_def DASH_COOLDOWN_def)
  have d: "velocity (startDash (Vector2 1 0) 1 ?p) = Vector2 18 0"
    by (simp add: startDash_def Let_def n multiply_def Vector2_def
        PLAYER_MAX_SPEED_def DASH_SPEED_MULTIPLIER_def)
  have e: "startDash (Vector2 1 0) 1 ?p \<noteq> ?p"
  proof
    assume "startDash (Vector2 1 0) 1 ?p = ?p"
    then have "isDashing (startDash (Vector2 1 0) 1 ?p) = isDashing ?p" by simp
    with b show False by (simp add: new_Player_def)
  qed
  from a b c d e show ?thesis by blast
qed

text \<open>
  Claim C6, amended.  The guard is \<open>canDash\<close> in \<open>handleInput\<close>: a living player whose
  cooldown is still positive after this tick's decrement gets no dash, whatever the
  input asks.  \<open>handleInput\<close> reports that no dash started; the cooldown only went down by
  the step (it is not re-armed), the dash direction and the position are unchanged, no
  dash is switched on, and the velocity changes by the ordinary movement acceleration
  only (when the player is not dashing and the movement is not zero).
\<close>

theorem C6_handleInput_refuses_dash:
  assumes "isAlive p" and "dashCooldown p > 0" and "dashCooldown p - dt > 0"
  shows "\<not> dashStarted (snd (handleInput inp dt sm p))
       \<and> dashCooldown (fst (handleInput inp dt sm p)) = dashCooldown p - dt
       \<and> dashDirection (fst (handleInput inp dt sm p)) = dashDirection p
       \<and> (isDashing (fst (handleInput inp dt sm p)) \<longrightarrow> isDashing p)
       \<and> position (fst (handleInput inp dt sm p)) = position p
       \<and> velocity (fst (handleInput inp dt sm p)) =
           (if \<not> isDashing (fst (handleInput inp dt sm p)) \<and> magnitude (movement inp) > 0
            then vadd (velocity p) (multiply (PLAYER_ACCELERATION * sm) (movement inp))
            else velocity p)"
  using assms
  by (simp add: handleInput_def Let_def canDash_def dashStarted_def
      tick_dashCooldown_def tick_dashState_def)

theorem C6_handleInput_refuses_dash_witness:
  "isAlive ((new_Player 0 100 100 0)\<lparr>dashCooldown := 700\<rparr>)
   \<and> \<not> dashStarted (snd (handleInput \<lparr>movement = Vector2 1 0, dash = True\<rparr> 16 1
         ((new_Player 0 100 100 0)\<lparr>dashCooldown := 700\<rparr>)))
   \<and> dashCooldown (fst (handleInput \<lparr>movement = Vector2 1 0, dash = True\<rparr> 16 1
         ((new_Player 0 100 100 0)\<lparr>dashCooldown := 700\<rparr>))) = 684"
proof -
  let ?p = "(new_Player 0 100 100 0)\<lparr>dashCooldown := 700\<rparr>"
  have h1: "isAlive ?p" by (simp add: new_Player_def)
  have h2: "dashCooldown ?p > 0" by (simp add: new_Player_def)
  have h3: "dashCooldown ?p - 16 > 0" by (simp add: new_Player_def)
  show ?thesis
    using C6_handleInput_refuses_dash [OF h1 h2 h3, of "\<lparr>movement = Vector2 1 0, dash = True\<rparr>" 1] h1
    by (simp add: new_Player_def)
qed

subsection \<open>Simultaneous knockout\<close>

lemma alivePlayers_none: "(\<forall>p\<in>set ps. \<not> isAlive p) \<Longrightarrow> alivePlayers ps = []"
  by (simp add: alivePlayers_def filter_empty_conv)

text \<open>
  Claim C3.  When the round-end check runs and no player is alive, the round ends in a
  draw: the state becomes \<open>roundEnd\<close>, \<open>roundWinner\<close> is null, the round-end
  notification carries a null winner and the reason \<open>knockout\<close>, and the player list is
  returned as it was, so no win counter moves.  The same holds for the whole update of
  a \<open>playing\<close> round manager whenever the final countdown has not started.
\<close>

theorem C3_simultaneous_knockout_draw:
  assumes "\<forall>p\<in>set ps. \<not> isAlive p"
  shows "state (fst (checkRoundEnd ps rm)) = roundEnd
       \<and> roundWinner (fst (checkRoundEnd ps rm)) = None
       \<and> snd (snd (checkRoundEnd ps rm)) = [onRoundEnd None (currentRound rm) knockout]
       \<and> fst (snd (checkRoundEnd ps rm)) = ps
       \<and> (state rm = playing \<and> \<not> finalCountdownActive rm
            \<and> roundTime rm + dt < FINAL_COUNTDOWN_START \<longrightarrow>
           state (fst (RoundManager_update dt ps rnd now rm)) = roundEnd
         \<and> roundWinner (fst (RoundManager_update dt ps rnd now rm)) = None
         \<and> fst (snd (RoundManager_update dt ps rnd now rm)) = ps
         \<and> last (snd (snd (RoundManager_update dt ps rnd now rm)))
             = onRoundEnd None (currentRound rm) knockout)"
proof -
  have al: "alivePlayers ps = []" using assms by (rule alivePlayers_none)
  have chk: "\<And>r. checkRoundEnd ps r =
      (r\<lparr>roundWinner := None, state := roundEnd, roundEndTimer := ROUND_END_DELAY\<rparr>, ps,
       [onRoundEnd None (currentRound r) knockout])"
    by (simp add: checkRoundEnd_def al Let_def award_def)
  have A: "state (fst (checkRoundEnd ps rm)) = roundEnd
       \<and> roundWinner (fst (checkRoundEnd ps rm)) = None
       \<and> snd (snd (checkRoundEnd ps rm)) = [onRoundEnd None (currentRound rm) knockout]
       \<and> fst (snd (checkRoundEnd ps rm)) = ps"
    by (simp add: chk)
  have B: "state rm = playing \<and> \<not> finalCountdownActive rm
            \<and> roundTime rm + dt < FINAL_COUNTDOWN_START \<longrightarrow>
           state (fst (RoundManager_update dt ps rnd now rm)) = roundEnd
         \<and> roundWinner (fst (RoundManager_update dt ps rnd now rm)) = None
         \<and> fst (snd (RoundManager_update dt ps rnd now rm)) = ps
         \<and> last (snd (snd (RoundManager_update dt ps rnd now rm)))
             = onRoundEnd None (currentRound rm) knockout"
  proof (intro impI)
    assume h: "state rm = playing \<and> \<not> finalCountdownActive rm
            \<and> roundTime rm + dt < FINAL_COUNTDOWN_START"
    define rm1 where "rm1 = updateDamageMultiplier (rm\<lparr>roundTime := roundTime rm + dt\<rparr>)"
    have f1: "\<not> finalCountdownActive rm1" "roundTime rm1 = roundTime rm + dt"
      "currentRound rm1 = currentRound rm"
      using h by (simp_all add: rm1_def updateDamageMultiplier_def Let_def)
    define rm2 where "rm2 = fst (escalate_instability rm1)"
    have f2: "\<not> finalCountdownActive rm2" "roundTime rm2 = roundTime rm + dt"
      "currentRound rm2 = currentRound rm"
      using f1 by (simp_all add: rm2_def escalate_instability_def)
    have f3: "start_finalCountdown rm2 = (rm2, [])"
      using f2 h by (simp add: start_finalCountdown_def)
    have up: "updatePlaying dt ps now rm =
       (rm2\<lparr>roundWinner := None, state := roundEnd, roundEndTimer := ROUND_END_DELAY\<rparr>, ps,
        snd (escalate_instability rm1) @ [onRoundEnd None (currentRound rm) knockout])"
      unfolding updatePlaying_def
      using f2 f3 by (simp add: Let_def rm1_def [symmetric] rm2_def [symmetric] chk)
    show "state (fst (RoundManager_update dt ps rnd now rm)) = roundEnd
         \<and> roundWinner (fst (RoundManager_update dt ps rnd now rm)) = None
         \<and> fst (snd (RoundManager_update dt ps rnd now rm)) = ps
         \<and> last (snd (snd (RoundManager_update dt ps rnd now rm)))
             = onRoundEnd None (currentRound rm) knockout"
      using h by (simp add: RoundManager_update_def up)
  qed
  from A B show ?thesis by blast
qed

theorem C3_simultaneous_knockout_draw_witness:
  "state (fst (checkRoundEnd dead2 (new_RoundManager\<lparr>state := playing, currentRound := 2\<rparr>))) = roundEnd
   \<and> roundWinner (fst (checkRoundEnd dead2 (new_RoundManager\<lparr>state := playing, currentRound := 2\<rparr>))) = None
   \<and> snd (snd (checkRoundEnd dead2 (new_RoundManager\<lparr>state := playing, currentRound := 2\<rparr>)))
       = [onRoundEnd None 2 knockout]
   \<and> map wins (fst (snd (checkRoundEnd dead2 (new_RoundManager\<lparr>state := playing, currentRound := 2\<rparr>))))
       = [0, 0]
   \<and> state (fst (RoundManager_update 16 dead2 (0, 0) 7
         (new_RoundManager\<lparr>state := playing, currentRound := 2\<rparr>))) = roundEnd"
proof -
  have h: "\<forall>p\<in>set dead2. \<not> isAlive p"
    by (simp add: dead2_def eliminate_def)
  have w: "map wins dead2 = [0, 0]"
    by (simp add: dead2_def eliminate_def new_Player_def)
  show ?thesis
    using C3_simultaneous_knockout_draw [OF h,
        of "new_RoundManager\<lparr>state := playing, currentRound := 2\<rparr>" 16 "(0, 0)" 7] w
    by (simp add: new_RoundManager_def FINAL_COUNTDOWN_START_def)
qed

subsection \<open>The sudden-death latch\<close>

lemma anim_keeps_suddenDeath:
  "suddenDeathActive (Arena_update_anim dt a) = suddenDeathActive a"
  by (simp add: Arena_update_anim_def Let_def)

lemma centrifuge_keeps_suddenDeath:
  "suddenDeathActive (Arena_update_centrifuge dt pl a) = suddenDeathActive a"
  by (simp add: Arena_update_centrifuge_def Let_def)

lemma shrink_keeps_suddenDeath:
  "suddenDeathActive (Arena_update_shrink dt pl a) = suddenDeathActive a"
  by (simp add: Arena_update_shrink_def Let_def)

lemma update_keeps_suddenDeath:
  "suddenDeathActive (Arena_update dt pl a) = suddenDeathActive a"
  by (simp add: Arena_update_def anim_keeps_suddenDeath centrifuge_keeps_suddenDeath
      shrink_keeps_suddenDeath)

lemma setAliveCount_suddenDeath:
  "suddenDeathActive (setAliveCount c a) =
     (suddenDeathActive a \<or> (c \<le> 2 \<and> roundTime_arena a \<ge> suddenDeathStartTime a))"
  by (auto simp add: setAliveCount_def)

lemma op_suddenDeath:
  "in_round op \<Longrightarrow>
   suddenDeathActive (apply_arena_op op a) =
     (suddenDeathActive a \<or>
      (\<exists>c. op = ASetAliveCount c \<and> c \<le> 2 \<and> roundTime_arena a \<ge> suddenDeathStartTime a))"
  by (cases op)
     (simp_all add: apply_arena_op_def in_round_def update_keeps_suddenDeath
        setAliveCount_suddenDeath setScale_def applyScale_def Let_def setShrinkSpeed_def
        activateCentrifuge_def triggerBorderGlow_def)

lemma ops_keep_suddenDeath:
  "suddenDeathActive a \<Longrightarrow> \<forall>op\<in>set ops. in_round op \<Longrightarrow>
   suddenDeathActive (fold apply_arena_op ops a)"
  by (induction ops arbitrary: a) (simp_all add: op_suddenDeath)

text \<open>
  Claim C4.  For every in-round operation on the arena, sudden death is active afterwards
  exactly when it was active before or the operation is \<open>setAliveCount\<close> with a count of
  at most 2 at a round time of at least \<open>suddenDeathStartTime\<close>; so it becomes true only
  that way.  Once active it stays active through any sequence of in-round operations
  (updates, further alive counts of any size, scale and shrink-speed settings), and the
  reset between rounds clears it.
\<close>

theorem C4_sudden_death_latch:
  "(in_round op \<longrightarrow>
      suddenDeathActive (apply_arena_op op a) =
        (suddenDeathActive a \<or>
         (\<exists>c. op = ASetAliveCount c \<and> c \<le> 2 \<and> roundTime_arena a \<ge> suddenDeathStartTime a)))
   \<and> (suddenDeathActive a \<and> (\<forall>op\<in>set ops. in_round op) \<longrightarrow>
        suddenDeathActive (fold apply_arena_op ops a))
   \<and> \<not> suddenDeathActive (apply_arena_op AReset a)"
proof -
  have r: "\<not> suddenDeathActive (apply_arena_op AReset a)"
    by (simp add: apply_arena_op_def Arena_reset_def Let_def)
  show ?thesis
    using op_suddenDeath [of op a] ops_keep_suddenDeath [of a ops] r by blast
qed

theorem C4_sudden_death_latch_witness:
  "suddenDeathActive (apply_arena_op (ASetAliveCount 2) late_arena)
   \<and> suddenDeathActive
        (fold apply_arena_op [AUpdate 16 True, ASetAliveCount 4, ASetScale (7 / 10)]
           (apply_arena_op (ASetAliveCount 2) late_arena))
   \<and> \<not> suddenDeathActive (apply_arena_op (ASetAliveCount 3) late_arena)"
proof -
  have i: "in_round (ASetAliveCount 2)" "in_round (ASetAliveCount 3)"
    "\<forall>op\<in>set [AUpdate 16 True, ASetAliveCount 4, ASetScale (7 / 10)]. in_round op"
    by (simp_all add: in_round_def)
  have t: "roundTime_arena late_arena \<ge> suddenDeathStartTime late_arena"
    "\<not> suddenDeathActive late_arena"
    by (simp_all add: late_arena_def new_Arena_def Let_def)
  have s1: "suddenDeathActive (apply_arena_op (ASetAliveCount 2) late_arena)"
    using C4_sudden_death_latch [of "ASetAliveCount 2" late_arena "[]"] i t by simp
  have s2: "suddenDeathActive
        (fold apply_arena_op [AUpdate 16 True, ASetAliveCount 4, ASetScale (7 / 10)]
           (apply_arena_op (ASetAliveCount 2) late_arena))"
    using C4_sudden_death_latch [of AReset "apply_arena_op (ASetAliveCount 2) late_arena"
        "[AUpdate 16 True, ASetAliveCount 4, ASetScale (7 / 10)]"] i s1 by blast
  have s3: "\<not> suddenDeathActive (apply_arena_op (ASetAliveCount 3) late_arena)"
    using C4_sudden_death_latch [of "ASetAliveCount 3" late_arena "[]"] i t by simp
  from s1 s2 s3 show ?thesis by blast
qed


subsection \<open>The shrink floor\<close>

lemma floor_arith:
  fixes oW s m pr :: real
  assumes "0 \<le> oW" "0 \<le> s" "m \<le> 1" "pr \<le> 1"
  shows "m * s * oW \<le> oW * ((1 - (1 - m) * pr) * s)"
proof -
  have "(1 - m) * pr \<le> (1 - m) * 1"
    using assms by (intro mult_left_mono) auto
  then have "m \<le> 1 - (1 - m) * pr" by simp
  moreover have "0 \<le> s * oW" using assms by simp
  ultimately have "m * (s * oW) \<le> (1 - (1 - m) * pr) * (s * oW)"
    by (rule mult_right_mono)
  then show ?thesis by (simp add: mult_ac)
qed

lemma floor_arith_scale:
  fixes oW s m :: real
  assumes "0 \<le> oW" "0 \<le> s" "m \<le> 1"
  shows "m * s * oW \<le> oW * s"
  using floor_arith [OF assms, of 0] by simp

lemma floor_inv_new:
  "canvasWidth \<ge> 2 * ARENA_PADDING \<Longrightarrow> canvasHeight \<ge> 2 * ARENA_PADDING \<Longrightarrow>
   floor_inv (new_Arena canvasWidth canvasHeight)"
  by (simp add: floor_inv_def new_Arena_def Let_def)

lemma floor_inv_anim: "floor_inv (Arena_update_anim dt a) = floor_inv a"
  by (simp add: floor_inv_def Arena_update_anim_def Let_def)

lemma floor_inv_centrifuge: "floor_inv (Arena_update_centrifuge dt pl a) = floor_inv a"
  by (simp add: floor_inv_def Arena_update_centrifuge_def Let_def)

lemma floor_inv_shrink:
  assumes "floor_inv a"
  shows "floor_inv (Arena_update_shrink dt pl a)"
proof -
  let ?oW = "right (originalBounds a) - left (originalBounds a)"
  let ?oH = "bottom (originalBounds a) - top_y (originalBounds a)"
  have h: "0 \<le> ?oW" "0 \<le> ?oH" "minSizePercent a \<le> 1" "0 \<le> arenaScale a"
    using assms by (simp_all add: floor_inv_def)
  have w: "\<And>pr. pr \<le> 1 \<Longrightarrow>
     minSizePercent a * arenaScale a * ?oW
       \<le> ?oW * ((1 - (1 - minSizePercent a) * pr) * arenaScale a)"
    using h by (intro floor_arith) auto
  have hh: "\<And>pr. pr \<le> 1 \<Longrightarrow>
     minSizePercent a * arenaScale a * ?oH
       \<le> ?oH * ((1 - (1 - minSizePercent a) * pr) * arenaScale a)"
    using h by (intro floor_arith) auto
  show ?thesis
    using assms w hh
    by (simp add: floor_inv_def Arena_update_shrink_def Let_def)
qed

lemma floor_inv_update: "floor_inv a \<Longrightarrow> floor_inv (Arena_update dt pl a)"
  by (simp add: Arena_update_def floor_inv_shrink floor_inv_centrifuge floor_inv_anim)

lemma floor_inv_setScale:
  assumes "floor_inv a" "0 \<le> s"
  shows "floor_inv (setScale s a)"
proof -
  let ?oW = "right (originalBounds a) - left (originalBounds a)"
  let ?oH = "bottom (originalBounds a) - top_y (originalBounds a)"
  have h: "0 \<le> ?oW" "0 \<le> ?oH" "minSizePercent a \<le> 1"
    using assms by (simp_all add: floor_inv_def)
  have w: "minSizePercent a * s * ?oW \<le> ?oW * s"
    using h assms(2) by (intro floor_arith_scale) auto
  have hh: "minSizePercent a * s * ?oH \<le> ?oH * s"
    using h assms(2) by (intro floor_arith_scale) auto
  show ?thesis
    using assms w hh
    by (simp add: floor_inv_def setScale_def applyScale_def Let_def)
qed

lemma floor_inv_reset: "floor_inv a \<Longrightarrow> floor_inv (Arena_reset a)"
proof -
  assume a: "floor_inv a"
  let ?oW = "right (originalBounds a) - left (originalBounds a)"
  let ?oH = "bottom (originalBounds a) - top_y (originalBounds a)"
  have h: "0 \<le> ?oW" "0 \<le> ?oH" "minSizePercent a \<le> 1"
    using a by (simp_all add: floor_inv_def)
  have w: "minSizePercent a * ?oW \<le> ?oW" "minSizePercent a * ?oH \<le> ?oH"
    using floor_arith_scale [of ?oW 1 "minSizePercent a"]
      floor_arith_scale [of ?oH 1 "minSizePercent a"] h by simp_all
  show ?thesis using a w
    by (simp add: floor_inv_def Arena_reset_def Let_def)
qed

lemma floor_inv_op:
  "floor_inv a \<Longrightarrow> (\<forall>s. op = ASetScale s \<longrightarrow> 0 \<le> s) \<Longrightarrow> floor_inv (apply_arena_op op a)"
proof (cases op)
  case (AUpdate dt pl)
  assume "floor_inv a"
  then show ?thesis using AUpdate by (simp add: apply_arena_op_def floor_inv_update)
next
  case (ASetAliveCount c)
  assume "floor_inv a"
  then show ?thesis using ASetAliveCount
    by (simp add: apply_arena_op_def setAliveCount_def floor_inv_def)
next
  case (ASetScale s)
  assume "floor_inv a" "\<forall>s. op = ASetScale s \<longrightarrow> 0 \<le> s"
  then show ?thesis using ASetScale by (simp add: apply_arena_op_def floor_inv_setScale)
next
  case (ASetShrinkSpeed m)
  assume "floor_inv a"
  then show ?thesis using ASetShrinkSpeed
    by (simp add: apply_arena_op_def setShrinkSpeed_def floor_inv_def)
next
  case AActivateCentrifuge
  assume "floor_inv a"
  then show ?thesis using AActivateCentrifuge
    by (simp add: apply_arena_op_def activateCentrifuge_def floor_inv_def)
next
  case ATriggerBorderGlow
  assume "floor_inv a"
  then show ?thesis using ATriggerBorderGlow
    by (simp add: apply_arena_op_def triggerBorderGlow_def floor_inv_def)
next
  case AReset
  assume "floor_inv a"
  then show ?thesis using AReset by (simp add: apply_arena_op_def floor_inv_reset)
qed

lemma floor_inv_ops:
  "floor_inv a \<Longrightarrow> \<forall>s. ASetScale s \<in> set ops \<longrightarrow> 0 \<le> s \<Longrightarrow>
   floor_inv (fold apply_arena_op ops a)"
proof (induction ops arbitrary: a)
  case Nil
  then show ?case by simp
next
  case (Cons op ops)
  have "floor_inv (apply_arena_op op a)"
    using Cons.prems by (intro floor_inv_op) auto
  then show ?case using Cons by simp
qed

text \<open>
  Claim C8.  Start from the arena of a canvas that leaves room for the padding, and
  apply any sequence of arena operations: updates with any step (hence at any round
  time), playing or not, alive counts, shrink-speed settings of any value, scale
  settings with a scale that is not negative, even resets.  Then the width and the
  height are never below \<open>minSizePercent * arenaScale\<close> times the original width and
  height, and they are the extents of the current bounds.
\<close>

theorem C8_shrink_floor:
  fixes canvasWidth canvasHeight :: real and ops :: "arena_op list"
  defines "a \<equiv> fold apply_arena_op ops (new_Arena canvasWidth canvasHeight)"
  assumes "canvasWidth \<ge> 2 * ARENA_PADDING" and "canvasHeight \<ge> 2 * ARENA_PADDING"
      and "\<forall>s. ASetScale s \<in> set ops \<longrightarrow> 0 \<le> s"
  shows "minSizePercent a * arenaScale a * (right (originalBounds a) - left (originalBounds a))
           \<le> width a
       \<and> minSizePercent a * arenaScale a * (bottom (originalBounds a) - top_y (originalBounds a))
           \<le> height a
       \<and> right (bounds a) - left (bounds a) = width a
       \<and> bottom (bounds a) - top_y (bounds a) = height a"
proof -
  have "floor_inv a"
    unfolding a_def using assms(2-4) by (intro floor_inv_ops floor_inv_new)
  then show ?thesis by (simp add: floor_inv_def)
qed

theorem C8_shrink_floor_witness:
  "width (fold apply_arena_op [ASetScale (7 / 10), AUpdate 21000 True] (new_Arena 1000 700))
     = 441 / 2
   \<and> minSizePercent (fold apply_arena_op [ASetScale (7 / 10), AUpdate 21000 True] (new_Arena 1000 700))
       * arenaScale (fold apply_arena_op [ASetScale (7 / 10), AUpdate 21000 True] (new_Arena 1000 700))
       * (right (originalBounds (fold apply_arena_op [ASetScale (7 / 10), AUpdate 21000 True] (new_Arena 1000 700)))
          - left (originalBounds (fold apply_arena_op [ASetScale (7 / 10), AUpdate 21000 True] (new_Arena 1000 700))))
       \<le> width (fold apply_arena_op [ASetScale (7 / 10), AUpdate 21000 True] (new_Arena 1000 700))"
proof -
  have h: "(1000::real) \<ge> 2 * ARENA_PADDING" "(700::real) \<ge> 2 * ARENA_PADDING"
    "\<forall>s. ASetScale s \<in> set [ASetScale (7 / 10), AUpdate 21000 True] \<longrightarrow> 0 \<le> s"
    by (simp_all add: ARENA_PADDING_def)
  have w: "width (fold apply_arena_op [ASetScale (7 / 10), AUpdate 21000 True] (new_Arena 1000 700))
     = 441 / 2"
    by (simp add: apply_arena_op_def setScale_def applyScale_def Arena_update_def
        Arena_update_anim_def Arena_update_centrifuge_def Arena_update_shrink_def
        getShrinkProgress_def new_Arena_def ARENA_PADDING_def Let_def)
  show ?thesis
    using C8_shrink_floor [OF h] w by simp
qed

subsection \<open>The forced end of a round\<close>

lemma fold_closest_step:
  "fold (closest_step ps) xs (Some c, Some (distOrZero (ps ! c)))
     = (Some (first_min (\<lambda>i. distOrZero (ps ! i)) c xs),
        Some (distOrZero (ps ! first_min (\<lambda>i. distOrZero (ps ! i)) c xs)))"
  by (induction xs arbitrary: c) (simp_all add: closest_step_def Let_def)

lemma closestPlayer_Cons:
  "closestPlayer ps (x # xs) = Some (first_min (\<lambda>i. distOrZero (ps ! i)) x xs)"
proof -
  have "closest_step ps x (None, None) = (Some x, Some (distOrZero (ps ! x)))"
    by (simp add: closest_step_def Let_def)
  then show ?thesis
    by (simp add: closestPlayer_def fold_closest_step)
qed

lemma first_min_mem: "first_min f c xs \<in> insert c (set xs)"
  by (induction xs arbitrary: c) auto

lemma first_min_le_start: "f (first_min f c xs) \<le> f c"
proof (induction xs arbitrary: c)
  case Nil
  then show ?case by simp
next
  case (Cons x xs)
  have "f (first_min f (if f x < f c then x else c) xs) \<le> f (if f x < f c then x else c)"
    by (rule Cons.IH)
  then show ?case by (simp split: if_splits)
qed

lemma first_min_le: "x \<in> set xs \<Longrightarrow> f (first_min f c xs) \<le> f x"
proof (induction xs arbitrary: c)
  case Nil
  then show ?case by simp
next
  case (Cons y ys)
  show ?case
  proof -
    have "x = y \<or> x \<in> set ys" using Cons.prems by auto
    then show ?thesis
    proof
      assume xy: "x = y"
      have "f (first_min f (if f y < f c then y else c) ys) \<le> f (if f y < f c then y else c)"
        by (rule first_min_le_start)
      then show ?thesis using xy by (simp split: if_splits)
    next
      assume "x \<in> set ys"
      then show ?thesis using Cons.IH by simp
    qed
  qed
qed

lemma first_min_strict: "first_min f c xs = c \<or> f (first_min f c xs) < f c"
proof (induction xs arbitrary: c)
  case Nil
  then show ?case by simp
next
  case (Cons x xs)
  have le: "f (first_min f (if f x < f c then x else c) xs) \<le> f (if f x < f c then x else c)"
    by (rule first_min_le_start)
  have ih: "first_min f (if f x < f c then x else c) xs = (if f x < f c then x else c)
        \<or> f (first_min f (if f x < f c then x else c) xs) < f (if f x < f c then x else c)"
    by (rule Cons.IH)
  show ?case using le ih by (auto split: if_splits)
qed

lemma first_min_earliest:
  "sorted_wrt (<) (c # xs) \<Longrightarrow> j \<in> set (c # xs) \<Longrightarrow> j < first_min f c xs \<Longrightarrow>
   f (first_min f c xs) < f j"
proof (induction xs arbitrary: c)
  case Nil
  then show ?case by simp
next
  case (Cons x xs)
  have cx: "c < x" and srt: "sorted_wrt (<) (x # xs)" and srt': "sorted_wrt (<) (c # xs)"
    using Cons.prems(1) by auto
  show ?case
  proof -
    have "f x < f c \<or> \<not> f x < f c" by blast
    then show ?thesis
    proof
      assume lt: "f x < f c"
      then have k: "first_min f c (x # xs) = first_min f x xs" by simp
      have "j = c \<or> j \<in> set (x # xs)" using Cons.prems(2) by auto
      then show ?thesis
      proof
        assume "j = c"
        moreover have "f (first_min f x xs) \<le> f x" by (rule first_min_le_start)
        ultimately show ?thesis using lt k by simp
      next
        assume "j \<in> set (x # xs)"
        then show ?thesis using Cons.IH [OF srt] Cons.prems(3) k by simp
      qed
    next
      assume nlt: "\<not> f x < f c"
      then have k: "first_min f c (x # xs) = first_min f c xs" by simp
      have "j = x \<or> j \<in> set (c # xs)" using Cons.prems(2) by auto
      then show ?thesis
      proof
        assume jx: "j = x"
        then have "first_min f c xs \<noteq> c" using Cons.prems(3) k cx by auto
        then have "f (first_min f c xs) < f c" using first_min_strict [of f c xs] by blast
        then show ?thesis using nlt jx k by simp
      next
        assume "j \<in> set (c # xs)"
        then show ?thesis using Cons.IH [OF srt'] Cons.prems(3) k by simp
      qed
    qed
  qed
qed

lemma alivePlayers_sorted: "sorted_wrt (<) (alivePlayers ps)"
  by (simp add: alivePlayers_def sorted_wrt_filter)

lemma alivePlayers_set: "set (alivePlayers ps) = {i. i < length ps \<and> isAlive (ps ! i)}"
  by (auto simp add: alivePlayers_def)

lemma alivePlayers_distinct: "distinct (alivePlayers ps)"
  by (simp add: alivePlayers_def)

lemma eliminate_others_length: "length (eliminate_others now keep xs ps) = length ps"
  unfolding eliminate_others_def
  by (induction xs arbitrary: ps) simp_all

lemma eliminate_others_nth:
  "distinct xs \<Longrightarrow> \<forall>i\<in>set xs. i < length ps \<Longrightarrow> k < length ps \<Longrightarrow>
   eliminate_others now keep xs ps ! k =
     (if k \<in> set xs \<and> Some k \<noteq> keep then eliminate now (ps ! k) else ps ! k)"
  unfolding eliminate_others_def
proof (induction xs arbitrary: ps)
  case Nil
  then show ?case by simp
next
  case (Cons x xs)
  let ?ps' = "(if Some x \<noteq> keep then ps[x := eliminate now (ps ! x)] else ps)"
  have len: "length ?ps' = length ps" by simp
  have ih: "fold (\<lambda>i qs. if Some i \<noteq> keep then qs[i := eliminate now (qs ! i)] else qs) xs ?ps' ! k
      = (if k \<in> set xs \<and> Some k \<noteq> keep then eliminate now (?ps' ! k) else ?ps' ! k)"
    using Cons.prems by (intro Cons.IH) (auto simp: len)
  have xs: "x \<notin> set xs" "x < length ps" using Cons.prems by auto
  show ?case
  proof -
    have "k = x \<or> k \<noteq> x" by blast
    then show ?thesis
    proof
      assume "k = x"
      then show ?thesis using ih xs by simp
    next
      assume "k \<noteq> x"
      then show ?thesis using ih xs by simp
    qed
  qed
qed

lemma forceRoundEnd_many:
  assumes "length (alivePlayers ps) \<ge> 2"
  shows "forceRoundEnd ps now rm =
           (let k = first_min (\<lambda>i. distOrZero (ps ! i)) (hd (alivePlayers ps)) (tl (alivePlayers ps))
            in (rm\<lparr>roundWinner := Some k, state := roundEnd, roundEndTimer := ROUND_END_DELAY\<rparr>,
                (eliminate_others now (Some k) (alivePlayers ps) ps)
                   [k := addWin (eliminate_others now (Some k) (alivePlayers ps) ps ! k)],
                [onRoundEnd (Some k) (currentRound rm) timeout]))"
proof -
  have "alivePlayers ps \<noteq> []" using assms by auto
  then obtain x xs where al: "alivePlayers ps = x # xs"
    by (auto simp: neq_Nil_conv)
  have len: "length (alivePlayers ps) \<noteq> 0" "length (alivePlayers ps) \<noteq> 1"
    using assms by auto
  have c: "closestPlayer ps (alivePlayers ps) = Some (first_min (\<lambda>i. distOrZero (ps ! i)) x xs)"
    by (simp add: al closestPlayer_Cons)
  show ?thesis
    using len c
    by (simp add: forceRoundEnd_def Let_def award_def al)
qed

lemma forceRoundEnd_result:
  assumes "length (alivePlayers ps) \<ge> 2"
  shows "\<exists>k. forceRoundEnd ps now rm =
              (rm\<lparr>roundWinner := Some k, state := roundEnd, roundEndTimer := ROUND_END_DELAY\<rparr>,
               fst (snd (forceRoundEnd ps now rm)),
               [onRoundEnd (Some k) (currentRound rm) timeout])
           \<and> forced_end_result ps now (fst (snd (forceRoundEnd ps now rm))) k"
proof -
  let ?f = "\<lambda>i. distOrZero (ps ! i)"
  let ?ps' = "fst (snd (forceRoundEnd ps now rm))"
  have "alivePlayers ps \<noteq> []" using assms by auto
  then obtain x xs where al: "alivePlayers ps = x # xs"
    by (auto simp: neq_Nil_conv)
  define k where "k = first_min ?f x xs"
  have fr: "forceRoundEnd ps now rm =
           (rm\<lparr>roundWinner := Some k, state := roundEnd, roundEndTimer := ROUND_END_DELAY\<rparr>,
            (eliminate_others now (Some k) (alivePlayers ps) ps)
               [k := addWin (eliminate_others now (Some k) (alivePlayers ps) ps ! k)],
            [onRoundEnd (Some k) (currentRound rm) timeout])"
    using forceRoundEnd_many [OF assms, of now rm] by (simp add: al k_def Let_def)
  have kmem: "k \<in> set (alivePlayers ps)"
    using first_min_mem [of ?f x xs] by (simp add: al k_def)
  then have k1: "k < length ps" and k2: "isAlive (ps ! k)"
    by (simp_all add: alivePlayers_set)
  have kmin: "\<And>j. j < length ps \<Longrightarrow> isAlive (ps ! j) \<Longrightarrow> ?f k \<le> ?f j"
  proof -
    fix j assume "j < length ps" "isAlive (ps ! j)"
    then have "j \<in> set (x # xs)" using al alivePlayers_set [of ps] by auto
    then have "j = x \<or> j \<in> set xs" by auto
    then show "?f k \<le> ?f j"
      using first_min_le_start [of ?f x xs] first_min_le [of j xs ?f x] by (auto simp: k_def)
  qed
  have kfirst: "\<And>j. j < k \<Longrightarrow> isAlive (ps ! j) \<Longrightarrow> ?f k < ?f j"
  proof -
    fix j assume jk: "j < k" and "isAlive (ps ! j)"
    then have "j \<in> set (x # xs)" using al alivePlayers_set [of ps] k1 by auto
    moreover have "sorted_wrt (<) (x # xs)" using alivePlayers_sorted [of ps] by (simp add: al)
    ultimately show "?f k < ?f j"
      using first_min_earliest [of x xs j ?f] jk by (simp add: k_def)
  qed
  have bnd: "\<forall>i\<in>set (alivePlayers ps). i < length ps" by (simp add: alivePlayers_set)
  have el: "\<And>j. j < length ps \<Longrightarrow>
      eliminate_others now (Some k) (alivePlayers ps) ps ! j =
        (if j \<in> set (alivePlayers ps) \<and> Some j \<noteq> Some k then eliminate now (ps ! j) else ps ! j)"
    by (rule eliminate_others_nth [OF alivePlayers_distinct bnd])
  have ps': "?ps' = (eliminate_others now (Some k) (alivePlayers ps) ps)
               [k := addWin (eliminate_others now (Some k) (alivePlayers ps) ps ! k)]"
    by (simp add: fr)
  have l: "length ?ps' = length ps" by (simp add: ps' eliminate_others_length)
  have pk: "?ps' ! k = addWin (ps ! k)"
    using k1 el [of k] by (simp add: ps' eliminate_others_length)
  have pj: "\<And>j. j < length ps \<Longrightarrow> j \<noteq> k \<Longrightarrow> isAlive (ps ! j) \<Longrightarrow> ?ps' ! j = eliminate now (ps ! j)"
    using el by (simp add: ps' alivePlayers_set)
  have pd: "\<And>j. j < length ps \<Longrightarrow> \<not> isAlive (ps ! j) \<Longrightarrow> ?ps' ! j = ps ! j"
  proof -
    fix j assume a: "j < length ps" "\<not> isAlive (ps ! j)"
    then have "j \<noteq> k" using k2 by auto
    then show "?ps' ! j = ps ! j" using el [of j] a by (simp add: ps' alivePlayers_set)
  qed
  have res: "forced_end_result ps now ?ps' k"
    unfolding forced_end_result_def
    using k1 k2 kmin kfirst l pk pj pd by blast
  have "forceRoundEnd ps now rm =
              (rm\<lparr>roundWinner := Some k, state := roundEnd, roundEndTimer := ROUND_END_DELAY\<rparr>,
               ?ps', [onRoundEnd (Some k) (currentRound rm) timeout])"
    using fr by simp
  then show ?thesis using res by blast
qed

lemma forced_end_survivor:
  assumes "forced_end_result ps now ps' k"
  shows "\<forall>j. j < length ps' \<longrightarrow> (isAlive (ps' ! j) \<longleftrightarrow> j = k)"
proof (intro allI impI)
  fix j assume j: "j < length ps'"
  have l: "length ps' = length ps" and k: "k < length ps" "isAlive (ps ! k)"
    and pk: "ps' ! k = addWin (ps ! k)"
    and pj: "\<And>i. i < length ps \<Longrightarrow> i \<noteq> k \<Longrightarrow> isAlive (ps ! i) \<Longrightarrow> ps' ! i = eliminate now (ps ! i)"
    and pd: "\<And>i. i < length ps \<Longrightarrow> \<not> isAlive (ps ! i) \<Longrightarrow> ps' ! i = ps ! i"
    using assms by (simp_all add: forced_end_result_def)
  show "isAlive (ps' ! j) \<longleftrightarrow> j = k"
  proof -
    have "j = k \<or> (j \<noteq> k \<and> isAlive (ps ! j)) \<or> (j \<noteq> k \<and> \<not> isAlive (ps ! j))" by blast
    then show ?thesis
    proof (elim disjE)
      assume "j = k"
      then show ?thesis using pk k by (simp add: addWin_def)
    next
      assume a: "j \<noteq> k \<and> isAlive (ps ! j)"
      then have "ps' ! j = eliminate now (ps ! j)" using pj j l by simp
      then show ?thesis using a by (simp add: eliminate_def)
    next
      assume a: "j \<noteq> k \<and> \<not> isAlive (ps ! j)"
      then have "ps' ! j = ps ! j" using pd j l by simp
      then show ?thesis using a by simp
    qed
  qed
qed

lemma alivePlayers_only:
  assumes "k < length qs" and "\<forall>j. j < length qs \<longrightarrow> (isAlive (qs ! j) \<longleftrightarrow> j = k)"
  shows "alivePlayers qs = [k]"
proof -
  define xs where "xs = alivePlayers qs"
  have s: "set xs = {k}" using assms by (auto simp add: xs_def alivePlayers_set)
  have d: "distinct xs" by (simp add: xs_def alivePlayers_distinct)
  have "length xs = card (set xs)" using d by (simp add: distinct_card)
  then have "length xs = 1" using s by simp
  then obtain x where x: "xs = [x]" by (auto simp add: length_Suc_conv)
  then have "x = k" using s by simp
  then show ?thesis using x by (simp add: xs_def)
qed

text \<open>
  Claim C10.  When \<open>forceRoundEnd\<close> runs with two or more living players, there is one
  player \<open>k\<close> it keeps: \<open>k\<close> is alive, it becomes the round winner and gets the win, no
  living player has a smaller stored distance (read as 0 when unset), and every living
  player listed before \<open>k\<close> has a strictly larger one, so a tie goes to the earliest.
  Afterwards \<open>k\<close> is the only living player: every other player who was alive has been
  eliminated (no longer alive, at rest, with the time of the elimination recorded), and
  the dead are untouched.  Where the stored distances are not negative (the driver
  stores square roots), a living player whose distance is unset or 0 is the one kept
  unless an earlier living player is at 0 too.
\<close>

theorem C10_forced_end_keeps_nearest:
  fixes ps :: "player list" and now :: real and rm :: round_manager
  defines "ps' \<equiv> fst (snd (forceRoundEnd ps now rm))"
  assumes "length (alivePlayers ps) \<ge> 2"
  shows "\<exists>k. k < length ps \<and> isAlive (ps ! k)
          \<and> roundWinner (fst (forceRoundEnd ps now rm)) = Some k
          \<and> (\<forall>j. j < length ps \<and> isAlive (ps ! j) \<longrightarrow> distOrZero (ps ! k) \<le> distOrZero (ps ! j))
          \<and> (\<forall>j. j < k \<and> isAlive (ps ! j) \<longrightarrow> distOrZero (ps ! k) < distOrZero (ps ! j))
          \<and> length ps' = length ps
          \<and> ps' ! k = addWin (ps ! k)
          \<and> isAlive (ps' ! k)
          \<and> alivePlayers ps' = [k]
          \<and> (\<forall>j. j < length ps \<and> j \<noteq> k \<longrightarrow> \<not> isAlive (ps' ! j))
          \<and> (\<forall>j. j < length ps \<and> j \<noteq> k \<and> isAlive (ps ! j) \<longrightarrow>
                ps' ! j = eliminate now (ps ! j)
              \<and> velocity (ps' ! j) = Vector2 0 0
              \<and> eliminationTime (ps' ! j) = Some now)
          \<and> (\<forall>j. j < length ps \<and> \<not> isAlive (ps ! j) \<longrightarrow> ps' ! j = ps ! j)
          \<and> ((\<forall>j. j < length ps \<longrightarrow> 0 \<le> distOrZero (ps ! j)) \<longrightarrow>
              (\<forall>i. i < length ps \<and> isAlive (ps ! i)
                   \<and> (distanceFromCenter (ps ! i) = None \<or> distanceFromCenter (ps ! i) = Some 0)
                   \<and> (\<forall>j. j < i \<and> isAlive (ps ! j) \<longrightarrow> distOrZero (ps ! j) \<noteq> 0)
                   \<longrightarrow> k = i))"
proof -
  let ?f = "\<lambda>i. distOrZero (ps ! i)"
  obtain k where fr: "forceRoundEnd ps now rm =
              (rm\<lparr>roundWinner := Some k, state := roundEnd, roundEndTimer := ROUND_END_DELAY\<rparr>,
               ps', [onRoundEnd (Some k) (currentRound rm) timeout])"
    and res: "forced_end_result ps now ps' k"
    using forceRoundEnd_result [OF assms(2), of now rm] unfolding ps'_def by blast
  have k1: "k < length ps" and k2: "isAlive (ps ! k)"
    and kmin: "\<And>j. j < length ps \<Longrightarrow> isAlive (ps ! j) \<Longrightarrow> ?f k \<le> ?f j"
    and kfirst: "\<And>j. j < k \<Longrightarrow> isAlive (ps ! j) \<Longrightarrow> ?f k < ?f j"
    and l: "length ps' = length ps"
    and pk: "ps' ! k = addWin (ps ! k)"
    and pj: "\<And>j. j < length ps \<Longrightarrow> j \<noteq> k \<Longrightarrow> isAlive (ps ! j) \<Longrightarrow>
               ps' ! j = eliminate now (ps ! j)"
    and pd: "\<And>j. j < length ps \<Longrightarrow> \<not> isAlive (ps ! j) \<Longrightarrow> ps' ! j = ps ! j"
    using res by (simp_all add: forced_end_result_def)
  have unset: "(\<forall>j. j < length ps \<longrightarrow> 0 \<le> ?f j) \<longrightarrow>
              (\<forall>i. i < length ps \<and> isAlive (ps ! i)
                   \<and> (distanceFromCenter (ps ! i) = None \<or> distanceFromCenter (ps ! i) = Some 0)
                   \<and> (\<forall>j. j < i \<and> isAlive (ps ! j) \<longrightarrow> ?f j \<noteq> 0)
                   \<longrightarrow> k = i)"
  proof (intro impI allI)
    fix i
    assume nn: "\<forall>j. j < length ps \<longrightarrow> 0 \<le> ?f j"
      and hi: "i < length ps \<and> isAlive (ps ! i)
                   \<and> (distanceFromCenter (ps ! i) = None \<or> distanceFromCenter (ps ! i) = Some 0)
                   \<and> (\<forall>j. j < i \<and> isAlive (ps ! j) \<longrightarrow> ?f j \<noteq> 0)"
    have fi: "?f i = 0" using hi by (auto simp: distOrZero_def)
    have "?f k \<le> ?f i" using kmin hi by blast
    moreover have "0 \<le> ?f k" using nn k1 by blast
    ultimately have fk: "?f k = 0" using fi by simp
    have "\<not> k < i" using hi fk k2 by auto
    moreover have "\<not> i < k" using kfirst [of i] hi fi fk by auto
    ultimately show "k = i" by simp
  qed
  have rw: "roundWinner (fst (forceRoundEnd ps now rm)) = Some k" by (simp add: fr)
  have sv: "\<forall>j. j < length ps' \<longrightarrow> (isAlive (ps' ! j) \<longleftrightarrow> j = k)"
    by (rule forced_end_survivor [OF res])
  have ak: "isAlive (ps' ! k)" using sv k1 l by simp
  have only: "alivePlayers ps' = [k]"
    using alivePlayers_only [of k ps'] sv k1 l by simp
  have others: "\<forall>j. j < length ps \<and> j \<noteq> k \<longrightarrow> \<not> isAlive (ps' ! j)"
    using sv l by simp
  have gone: "\<forall>j. j < length ps \<and> j \<noteq> k \<and> isAlive (ps ! j) \<longrightarrow>
                ps' ! j = eliminate now (ps ! j)
              \<and> velocity (ps' ! j) = Vector2 0 0
              \<and> eliminationTime (ps' ! j) = Some now"
  proof (intro allI impI)
    fix j assume j: "j < length ps \<and> j \<noteq> k \<and> isAlive (ps ! j)"
    then have e: "ps' ! j = eliminate now (ps ! j)" using pj by simp
    show "ps' ! j = eliminate now (ps ! j)
              \<and> velocity (ps' ! j) = Vector2 0 0
              \<and> eliminationTime (ps' ! j) = Some now"
      by (simp add: e eliminate_def)
  qed
  have dead: "\<forall>j. j < length ps \<and> \<not> isAlive (ps ! j) \<longrightarrow> ps' ! j = ps ! j"
    using pd by simp
  have kmin': "\<forall>j. j < length ps \<and> isAlive (ps ! j) \<longrightarrow> ?f k \<le> ?f j" using kmin by simp
  have kfirst': "\<forall>j. j < k \<and> isAlive (ps ! j) \<longrightarrow> ?f k < ?f j" using kfirst by simp
  show ?thesis
    using k1 k2 rw kmin' kfirst' l pk ak only others gone dead unset
    by (intro exI [of _ k]) (simp add: eliminate_def)
qed

lemma trio_alive: "alivePlayers trio = [0, 1, 2]"
  by (simp add: alivePlayers_def trio_def new_Player_def upt_rec)

theorem C10_forced_end_keeps_nearest_witness:
  "roundWinner (fst (forceRoundEnd trio 9 new_RoundManager)) = Some 1
   \<and> fst (snd (forceRoundEnd trio 9 new_RoundManager)) ! 1 = addWin (trio ! 1)
   \<and> fst (snd (forceRoundEnd trio 9 new_RoundManager)) ! 0 = eliminate 9 (trio ! 0)
   \<and> fst (snd (forceRoundEnd trio 9 new_RoundManager)) ! 2 = eliminate 9 (trio ! 2)
   \<and> alivePlayers (fst (snd (forceRoundEnd trio 9 new_RoundManager))) = [1]
   \<and> \<not> isAlive (fst (snd (forceRoundEnd trio 9 new_RoundManager)) ! 0)
   \<and> \<not> isAlive (fst (snd (forceRoundEnd trio 9 new_RoundManager)) ! 2)
   \<and> velocity (fst (snd (forceRoundEnd trio 9 new_RoundManager)) ! 2) = Vector2 0 0"
proof -
  have h: "length (alivePlayers trio) \<ge> 2" by (simp add: trio_alive)
  have l: "length trio = 3" by (simp add: trio_def)
  have al: "isAlive (trio ! 0)" "isAlive (trio ! 1)" "isAlive (trio ! 2)"
    by (simp_all add: trio_def new_Player_def)
  have d: "distOrZero (trio ! 0) = 50" "distOrZero (trio ! 1) = 0" "distOrZero (trio ! 2) = 0"
    "distanceFromCenter (trio ! 1) = None"
    by (simp_all add: trio_def new_Player_def distOrZero_def)
  have nn: "\<forall>j. j < length trio \<longrightarrow> 0 \<le> distOrZero (trio ! j)"
  proof (intro allI impI)
    fix j assume "j < length trio"
    then have "j = 0 \<or> j = 1 \<or> j = 2" using l by auto
    then show "0 \<le> distOrZero (trio ! j)" using d by auto
  qed
  let ?ps' = "fst (snd (forceRoundEnd trio 9 new_RoundManager))"
  obtain k where k: "roundWinner (fst (forceRoundEnd trio 9 new_RoundManager)) = Some k"
     and pk: "?ps' ! k = addWin (trio ! k)"
     and only: "alivePlayers ?ps' = [k]"
     and others: "\<forall>j. j < length trio \<and> j \<noteq> k \<longrightarrow> \<not> isAlive (?ps' ! j)"
     and pj: "\<forall>j. j < length trio \<and> j \<noteq> k \<and> isAlive (trio ! j) \<longrightarrow>
                ?ps' ! j = eliminate 9 (trio ! j)
              \<and> velocity (?ps' ! j) = Vector2 0 0
              \<and> eliminationTime (?ps' ! j) = Some 9"
     and un: "(\<forall>j. j < length trio \<longrightarrow> 0 \<le> distOrZero (trio ! j)) \<longrightarrow>
              (\<forall>i. i < length trio \<and> isAlive (trio ! i)
                   \<and> (distanceFromCenter (trio ! i) = None \<or> distanceFromCenter (trio ! i) = Some 0)
                   \<and> (\<forall>j. j < i \<and> isAlive (trio ! j) \<longrightarrow> distOrZero (trio ! j) \<noteq> 0)
                   \<longrightarrow> k = i)"
    using C10_forced_end_keeps_nearest [OF h, of 9 new_RoundManager] by blast
  have e: "\<forall>j. j < (1::nat) \<and> isAlive (trio ! j) \<longrightarrow> distOrZero (trio ! j) \<noteq> 0"
    using d by auto
  have k1: "k = 1" using un nn al d l e by auto
  have i0: "(0::nat) < length trio \<and> 0 \<noteq> k \<and> isAlive (trio ! 0)"
    and i2: "(2::nat) < length trio \<and> 2 \<noteq> k \<and> isAlive (trio ! 2)"
    using k1 l al by simp_all
  have p0: "?ps' ! 0 = eliminate 9 (trio ! 0)"
    using pj i0 by blast
  have p2: "?ps' ! 2 = eliminate 9 (trio ! 2)" and v2: "velocity (?ps' ! 2) = Vector2 0 0"
    using pj i2 by blast+
  have d0: "\<not> isAlive (?ps' ! 0)" and d2: "\<not> isAlive (?ps' ! 2)"
    using others k1 l by simp_all
  show ?thesis using k pk only k1 p0 p2 v2 d0 d2 by simp
qed

subsection \<open>Out of bounds and eliminated\<close>

lemma sqrt_scale:
  fixes k a b :: real
  shows "sqrt ((k * a)\<^sup>2 + (k * b)\<^sup>2) = \<bar>k\<bar> * sqrt (a\<^sup>2 + b\<^sup>2)"
proof -
  have "(k * a)\<^sup>2 + (k * b)\<^sup>2 = k\<^sup>2 * (a\<^sup>2 + b\<^sup>2)"
    by (simp add: power_mult_distrib distrib_left)
  then show ?thesis by (simp add: real_sqrt_mult)
qed

lemma oob_rect:
  "\<not> centrifugeMode a \<Longrightarrow>
   isOutOfBounds a x y r =
     (x - r < left (bounds a) \<or> x + r > right (bounds a) \<or>
      y - r < top_y (bounds a) \<or> y + r > bottom (bounds a))"
  by (simp add: isOutOfBounds_def)

lemma elim_rect:
  "\<not> centrifugeMode a \<Longrightarrow>
   isEliminated a x y r =
     (x + r < left (bounds a) \<or> x - r > right (bounds a) \<or>
      y + r < top_y (bounds a) \<or> y - r > bottom (bounds a))"
  by (simp add: isEliminated_def)

lemma oob_cent:
  "centrifugeMode a \<Longrightarrow>
   isOutOfBounds a x y r =
     (sqrt ((x - centerX a)\<^sup>2 + (y - centerY a)\<^sup>2) + r > centrifugeRadius a)"
  by (simp add: isOutOfBounds_def isOutOfCentrifuge_def Let_def power2_eq_square)

lemma elim_cent:
  "centrifugeMode a \<Longrightarrow>
   isEliminated a x y r =
     (sqrt ((x - centerX a)\<^sup>2 + (y - centerY a)\<^sup>2) - r > centrifugeRadius a)"
  by (simp add: isEliminated_def isEliminatedCentrifuge_def Let_def power2_eq_square)

lemma in_circle_coords:
  assumes "in_circle x y r q"
  shows "\<bar>fst q - x\<bar> \<le> r" "\<bar>snd q - y\<bar> \<le> r"
proof -
  have s: "sqrt ((fst q - x)\<^sup>2 + (snd q - y)\<^sup>2) \<le> r"
    using assms by (simp add: in_circle_def)
  show "\<bar>fst q - x\<bar> \<le> r"
    by (rule order_trans [OF real_sqrt_ge_abs1 s])
  show "\<bar>snd q - y\<bar> \<le> r"
    by (rule order_trans [OF real_sqrt_ge_abs2 s])
qed

text \<open>A point of the circle outside the boundary makes \<open>isOutOfBounds\<close> true.\<close>

lemma outside_point_oob:
  assumes c: "in_circle x y r q" and o: "\<not> inside_boundary a q"
  shows "isOutOfBounds a x y r"
proof -
  have "centrifugeMode a \<or> \<not> centrifugeMode a" by blast
  then show ?thesis
  proof
    assume m: "centrifugeMode a"
    have far: "centrifugeRadius a < sqrt ((fst q - centerX a)\<^sup>2 + (snd q - centerY a)\<^sup>2)"
      using o m by (simp add: inside_boundary_def)
    have "sqrt (((fst q - x) + (x - centerX a))\<^sup>2 + ((snd q - y) + (y - centerY a))\<^sup>2)
        \<le> sqrt ((fst q - x)\<^sup>2 + (snd q - y)\<^sup>2) + sqrt ((x - centerX a)\<^sup>2 + (y - centerY a)\<^sup>2)"
      by (rule real_sqrt_sum_squares_triangle_ineq)
    then have "sqrt ((fst q - centerX a)\<^sup>2 + (snd q - centerY a)\<^sup>2)
        \<le> r + sqrt ((x - centerX a)\<^sup>2 + (y - centerY a)\<^sup>2)"
      using c by (simp add: in_circle_def)
    then show ?thesis using far m by (simp add: oob_cent)
  next
    assume m: "\<not> centrifugeMode a"
    show ?thesis
      using in_circle_coords [OF c] o m by (auto simp add: oob_rect inside_boundary_def)
  qed
qed

text \<open>A point of the circle inside the boundary makes \<open>isEliminated\<close> false.\<close>

lemma inside_point_not_eliminated:
  assumes c: "in_circle x y r q" and i: "inside_boundary a q"
  shows "\<not> isEliminated a x y r"
proof -
  have "centrifugeMode a \<or> \<not> centrifugeMode a" by blast
  then show ?thesis
  proof
    assume m: "centrifugeMode a"
    have near: "sqrt ((fst q - centerX a)\<^sup>2 + (snd q - centerY a)\<^sup>2) \<le> centrifugeRadius a"
      using i m by (simp add: inside_boundary_def)
    have "sqrt (((x - fst q) + (fst q - centerX a))\<^sup>2 + ((y - snd q) + (snd q - centerY a))\<^sup>2)
        \<le> sqrt ((x - fst q)\<^sup>2 + (y - snd q)\<^sup>2)
          + sqrt ((fst q - centerX a)\<^sup>2 + (snd q - centerY a)\<^sup>2)"
      by (rule real_sqrt_sum_squares_triangle_ineq)
    moreover have "sqrt ((x - fst q)\<^sup>2 + (y - snd q)\<^sup>2) \<le> r"
      using c by (simp add: in_circle_def power2_commute)
    ultimately have "sqrt ((x - centerX a)\<^sup>2 + (y - centerY a)\<^sup>2) \<le> r + centrifugeRadius a"
      using near by simp
    then show ?thesis using m by (simp add: elim_cent)
  next
    assume m: "\<not> centrifugeMode a"
    show ?thesis
      using in_circle_coords [OF c] i m by (auto simp add: elim_rect inside_boundary_def)
  qed
qed

lemma eliminated_oob:
  assumes "0 \<le> r" and "isEliminated a x y r"
  shows "isOutOfBounds a x y r"
proof -
  have "centrifugeMode a \<or> \<not> centrifugeMode a" by blast
  then show ?thesis
  proof
    assume m: "centrifugeMode a"
    then show ?thesis using assms by (simp add: elim_cent oob_cent)
  next
    assume m: "\<not> centrifugeMode a"
    then show ?thesis using assms by (auto simp add: elim_rect oob_rect)
  qed
qed

text \<open>Points on the line through the centre of the circle and the centre of the arena.\<close>

lemma ray_from_circle:
  fixes dx dy k :: real
  shows "sqrt ((dx + k * dx)\<^sup>2 + (dy + k * dy)\<^sup>2) = \<bar>1 + k\<bar> * sqrt (dx\<^sup>2 + dy\<^sup>2)"
proof -
  have e: "dx + k * dx = (1 + k) * dx" "dy + k * dy = (1 + k) * dy"
    by (simp_all add: distrib_right)
  show ?thesis unfolding e by (rule sqrt_scale)
qed

lemma cent_oob_partially:
  assumes m: "centrifugeMode a" and r: "0 \<le> r" and o: "isOutOfBounds a x y r"
  shows "partially_outside a x y r"
proof -
  define dx where "dx = x - centerX a"
  define dy where "dy = y - centerY a"
  define D where "D = sqrt (dx\<^sup>2 + dy\<^sup>2)"
  have far: "D + r > centrifugeRadius a"
    using o m by (simp add: oob_cent D_def dx_def dy_def)
  have "0 \<le> D" by (simp add: D_def)
  then have "D = 0 \<or> D > 0" by linarith
  then show ?thesis
  proof
    assume z: "D = 0"
    then have "dx\<^sup>2 + dy\<^sup>2 = 0" by (simp add: D_def)
    then have d0: "dx = 0" "dy = 0" by (simp_all add: sum_power2_eq_zero_iff)
    have c: "in_circle x y r (x + r, y)" using r by (simp add: in_circle_def)
    have "x + r - centerX a = r" "y - centerY a = 0"
      using d0 by (simp_all add: dx_def dy_def)
    then have "sqrt ((x + r - centerX a)\<^sup>2 + (y - centerY a)\<^sup>2) = r"
      using r by simp
    then have "\<not> inside_boundary a (x + r, y)"
      using far z m by (simp add: inside_boundary_def)
    then show ?thesis using c by (auto simp: partially_outside_def)
  next
    assume p: "D > 0"
    define k where "k = r / D"
    have k0: "0 \<le> k" and kD: "k * D = r" using p r by (simp_all add: k_def)
    let ?q = "(x + k * dx, y + k * dy)"
    have "sqrt ((k * dx)\<^sup>2 + (k * dy)\<^sup>2) = \<bar>k\<bar> * D"
      unfolding D_def by (rule sqrt_scale)
    then have c: "in_circle x y r ?q"
      using k0 kD by (simp add: in_circle_def)
    have e: "fst ?q - centerX a = dx + k * dx" "snd ?q - centerY a = dy + k * dy"
      by (simp_all add: dx_def dy_def)
    have "sqrt ((fst ?q - centerX a)\<^sup>2 + (snd ?q - centerY a)\<^sup>2) = \<bar>1 + k\<bar> * D"
      unfolding e D_def by (rule ray_from_circle)
    also have "\<dots> = (1 + k) * D" using k0 by simp
    also have "\<dots> = D + r" using kD by (simp add: distrib_right)
    finally have "sqrt ((fst ?q - centerX a)\<^sup>2 + (snd ?q - centerY a)\<^sup>2) = D + r" .
    then have "\<not> inside_boundary a ?q"
      using far m by (simp add: inside_boundary_def)
    then show ?thesis using c by (auto simp: partially_outside_def)
  qed
qed

lemma cent_not_eliminated_not_completely:
  assumes m: "centrifugeMode a" and r: "0 \<le> r" and R: "0 \<le> centrifugeRadius a"
    and e: "\<not> isEliminated a x y r"
  shows "\<not> completely_outside a x y r"
proof -
  define dx where "dx = x - centerX a"
  define dy where "dy = y - centerY a"
  define D where "D = sqrt (dx\<^sup>2 + dy\<^sup>2)"
  have near: "D - r \<le> centrifugeRadius a"
    using e m by (simp add: elim_cent D_def dx_def dy_def)
  have "D \<le> r \<or> D > r" by auto
  then show ?thesis
  proof
    assume le: "D \<le> r"
    have c: "in_circle x y r (centerX a, centerY a)"
      using le by (simp add: in_circle_def D_def dx_def dy_def power2_commute)
    have "inside_boundary a (centerX a, centerY a)"
      using R m by (simp add: inside_boundary_def)
    then show ?thesis using c by (auto simp: completely_outside_def)
  next
    assume gt: "D > r"
    then have p: "D > 0" using r by simp
    define k where "k = - (r / D)"
    have k0: "k \<le> 0" and kD: "k * D = - r" and k1: "0 \<le> 1 + k"
      using p r gt by (simp_all add: k_def)
    let ?q = "(x + k * dx, y + k * dy)"
    have "sqrt ((k * dx)\<^sup>2 + (k * dy)\<^sup>2) = \<bar>k\<bar> * D"
      unfolding D_def by (rule sqrt_scale)
    also have "\<dots> = - (k * D)" using k0 by (simp add: abs_if)
    finally have "sqrt ((k * dx)\<^sup>2 + (k * dy)\<^sup>2) = r" using kD by simp
    then have c: "in_circle x y r ?q"
      by (simp add: in_circle_def)
    have e: "fst ?q - centerX a = dx + k * dx" "snd ?q - centerY a = dy + k * dy"
      by (simp_all add: dx_def dy_def)
    have "sqrt ((fst ?q - centerX a)\<^sup>2 + (snd ?q - centerY a)\<^sup>2) = \<bar>1 + k\<bar> * D"
      unfolding e D_def by (rule ray_from_circle)
    also have "\<dots> = (1 + k) * D" using k1 by simp
    also have "\<dots> = D - r" using kD by (simp add: distrib_right)
    finally have "sqrt ((fst ?q - centerX a)\<^sup>2 + (snd ?q - centerY a)\<^sup>2) = D - r" .
    then have "inside_boundary a ?q"
      using near m by (simp add: inside_boundary_def)
    then show ?thesis using c by (auto simp: completely_outside_def)
  qed
qed

lemma rect_oob_partially:
  assumes m: "\<not> centrifugeMode a" and r: "0 \<le> r" and o: "isOutOfBounds a x y r"
  shows "partially_outside a x y r"
proof -
  have c: "in_circle x y r (x - r, y)" "in_circle x y r (x + r, y)"
    "in_circle x y r (x, y - r)" "in_circle x y r (x, y + r)"
    using r by (simp_all add: in_circle_def)
  have "x - r < left (bounds a) \<or> x + r > right (bounds a) \<or>
      y - r < top_y (bounds a) \<or> y + r > bottom (bounds a)"
    using o m by (simp add: oob_rect)
  then show ?thesis
  proof (elim disjE)
    assume "x - r < left (bounds a)"
    then have "\<not> inside_boundary a (x - r, y)" using m by (simp add: inside_boundary_def)
    then show ?thesis using c(1) by (auto simp: partially_outside_def)
  next
    assume "x + r > right (bounds a)"
    then have "\<not> inside_boundary a (x + r, y)" using m by (simp add: inside_boundary_def)
    then show ?thesis using c(2) by (auto simp: partially_outside_def)
  next
    assume "y - r < top_y (bounds a)"
    then have "\<not> inside_boundary a (x, y - r)" using m by (simp add: inside_boundary_def)
    then show ?thesis using c(3) by (auto simp: partially_outside_def)
  next
    assume "y + r > bottom (bounds a)"
    then have "\<not> inside_boundary a (x, y + r)" using m by (simp add: inside_boundary_def)
    then show ?thesis using c(4) by (auto simp: partially_outside_def)
  qed
qed

text \<open>The corner pocket of the 1000 x 700 arena: a circle wholly outside the rectangle.\<close>

lemma corner_completely_outside: "completely_outside (new_Arena 1000 700) 30 30 25"
  unfolding completely_outside_def
proof (intro allI impI notI)
  fix q :: "real \<times> real"
  assume c: "in_circle 30 30 25 q" and i: "inside_boundary (new_Arena 1000 700) q"
  have ge: "50 \<le> fst q" "50 \<le> snd q"
    using i by (simp_all add: inside_boundary_def new_Arena_def ARENA_PADDING_def Let_def)
  have "(20::real) ^ 2 \<le> (fst q - 30) ^ 2" using ge by (intro power_mono) auto
  moreover have "(20::real) ^ 2 \<le> (snd q - 30) ^ 2" using ge by (intro power_mono) auto
  ultimately have big: "800 \<le> (fst q - 30)\<^sup>2 + (snd q - 30)\<^sup>2" by simp
  have "sqrt ((fst q - 30)\<^sup>2 + (snd q - 30)\<^sup>2) \<le> 25"
    using c by (simp add: in_circle_def)
  then have "(fst q - 30)\<^sup>2 + (snd q - 30)\<^sup>2 \<le> 25\<^sup>2" by (rule sqrt_le_D)
  then show False using big by simp
qed

text \<open>
  Claim C2, as stated, fails in its last clause.  In the rectangular arena of the
  1000 x 700 canvas a circle of radius 25 around (30, 30) lies wholly outside the
  rectangle, diagonal to its corner (50, 50); it is out of bounds and, being wholly past
  no single edge, not eliminated.  The two predicates differ there, outside the
  partial-overlap band.
\<close>

theorem C2_corner_pocket:
  "isOutOfBounds (new_Arena 1000 700) 30 30 25
   \<and> \<not> isEliminated (new_Arena 1000 700) 30 30 25
   \<and> completely_outside (new_Arena 1000 700) 30 30 25
   \<and> \<not> centrifugeMode (new_Arena 1000 700)"
proof -
  have m: "\<not> centrifugeMode (new_Arena 1000 700)" by (simp add: new_Arena_def Let_def)
  have "isOutOfBounds (new_Arena 1000 700) 30 30 25"
    by (simp add: oob_rect [OF m]) (simp add: new_Arena_def ARENA_PADDING_def Let_def)
  moreover have "\<not> isEliminated (new_Arena 1000 700) 30 30 25"
    by (simp add: elim_rect [OF m]) (simp add: new_Arena_def ARENA_PADDING_def Let_def)
  ultimately show ?thesis using corner_completely_outside m by blast
qed

text \<open>
  Claim C2, amended.  For every position and every radius \<open>r > 0\<close>, in both boundary
  modes: if the bounding circle is partially but not completely outside the boundary,
  then \<open>isOutOfBounds\<close> is true and \<open>isEliminated\<close> is false; \<open>isEliminated\<close> implies
  \<open>isOutOfBounds\<close>; and where the two predicates differ the circle is at least partially
  outside.  In centrifuge mode (with a radius that is not negative) they differ only on
  the partial-overlap band.  In rectangular mode they differ also in the pockets
  diagonal to the corners, where the circle is wholly outside the rectangle but wholly
  past no single edge.
\<close>

theorem C2_out_of_bounds_vs_eliminated:
  assumes "r > 0"
  shows "(partially_outside a x y r \<and> \<not> completely_outside a x y r \<longrightarrow>
            isOutOfBounds a x y r \<and> \<not> isEliminated a x y r)
       \<and> (isEliminated a x y r \<longrightarrow> isOutOfBounds a x y r)
       \<and> (isOutOfBounds a x y r \<and> \<not> isEliminated a x y r \<longrightarrow> partially_outside a x y r)
       \<and> (centrifugeMode a \<and> 0 \<le> centrifugeRadius a
            \<and> isOutOfBounds a x y r \<and> \<not> isEliminated a x y r \<longrightarrow>
            \<not> completely_outside a x y r)"
proof -
  have r0: "0 \<le> r" using assms by simp
  have A: "partially_outside a x y r \<and> \<not> completely_outside a x y r \<longrightarrow>
            isOutOfBounds a x y r \<and> \<not> isEliminated a x y r"
  proof
    assume h: "partially_outside a x y r \<and> \<not> completely_outside a x y r"
    then obtain q1 where q1: "in_circle x y r q1" "\<not> inside_boundary a q1"
      by (auto simp: partially_outside_def)
    from h obtain q2 where q2: "in_circle x y r q2" "inside_boundary a q2"
      by (auto simp: completely_outside_def)
    show "isOutOfBounds a x y r \<and> \<not> isEliminated a x y r"
      using outside_point_oob [OF q1] inside_point_not_eliminated [OF q2] by simp
  qed
  have B: "isEliminated a x y r \<longrightarrow> isOutOfBounds a x y r"
    using eliminated_oob [OF r0] by blast
  have C: "isOutOfBounds a x y r \<and> \<not> isEliminated a x y r \<longrightarrow> partially_outside a x y r"
    using cent_oob_partially [of a r x y] rect_oob_partially [of a r x y] r0 by blast
  have D: "centrifugeMode a \<and> 0 \<le> centrifugeRadius a
            \<and> isOutOfBounds a x y r \<and> \<not> isEliminated a x y r \<longrightarrow>
            \<not> completely_outside a x y r"
    using cent_not_eliminated_not_completely [of a r x y] r0 by blast
  from A B C D show ?thesis by blast
qed

lemma spinning_arena_fields:
  "centrifugeMode spinning_arena" "centrifugeRadius spinning_arena = 270"
  "centerX spinning_arena = 500" "centerY spinning_arena = 350"
  by (simp_all add: spinning_arena_def activateCentrifuge_def new_Arena_def
      ARENA_PADDING_def Let_def)

theorem C2_out_of_bounds_vs_eliminated_witness:
  "partially_outside (new_Arena 1000 700) 60 350 25
   \<and> \<not> completely_outside (new_Arena 1000 700) 60 350 25
   \<and> isOutOfBounds (new_Arena 1000 700) 60 350 25
   \<and> \<not> isEliminated (new_Arena 1000 700) 60 350 25
   \<and> isOutOfBounds spinning_arena 750 350 25
   \<and> \<not> isEliminated spinning_arena 750 350 25
   \<and> partially_outside spinning_arena 750 350 25
   \<and> \<not> completely_outside spinning_arena 750 350 25"
proof -
  let ?A = "new_Arena 1000 700"
  have r: "(25::real) > 0" by simp
  have "in_circle 60 350 25 (35, 350)" by (simp add: in_circle_def)
  moreover have "\<not> inside_boundary ?A (35, 350)"
    by (simp add: inside_boundary_def new_Arena_def ARENA_PADDING_def Let_def)
  ultimately have p: "partially_outside ?A 60 350 25"
    by (auto simp: partially_outside_def)
  have "in_circle 60 350 25 (60, 350)" by (simp add: in_circle_def)
  moreover have "inside_boundary ?A (60, 350)"
    by (simp add: inside_boundary_def new_Arena_def ARENA_PADDING_def Let_def)
  ultimately have n: "\<not> completely_outside ?A 60 350 25"
    by (auto simp: completely_outside_def)
  have rect: "isOutOfBounds ?A 60 350 25 \<and> \<not> isEliminated ?A 60 350 25"
    using C2_out_of_bounds_vs_eliminated [OF r, of ?A 60 350] p n by blast
  have s: "sqrt ((750 - 500)\<^sup>2 + (350 - 350)\<^sup>2) = (250::real)" by simp
  have o: "isOutOfBounds spinning_arena 750 350 25"
    by (simp add: oob_cent spinning_arena_fields)
  have e: "\<not> isEliminated spinning_arena 750 350 25"
    by (simp add: elim_cent spinning_arena_fields)
  have cent: "partially_outside spinning_arena 750 350 25
      \<and> \<not> completely_outside spinning_arena 750 350 25"
    using C2_out_of_bounds_vs_eliminated [OF r, of spinning_arena 750 350] o e
      spinning_arena_fields by simp
  show ?thesis using p n rect o e cent by blast
qed

subsection \<open>The driver: what the round manager notifies\<close>

lemma startCountdown_events: "onCentrifugeStart \<notin> set (snd (startCountdown rnd rm))"
  by (simp add: startCountdown_def Let_def)

lemma updateCountdown_events: "onCentrifugeStart \<notin> set (snd (updateCountdown dt rm))"
  by (simp add: updateCountdown_def Let_def split: option.splits)

lemma updateRoundEnd_events: "onCentrifugeStart \<notin> set (snd (updateRoundEnd dt ps rnd rm))"
  by (simp add: updateRoundEnd_def Let_def startCountdown_events split: option.splits)

lemma forceRoundEnd_events: "onCentrifugeStart \<notin> set (snd (snd (forceRoundEnd ps now rm)))"
  by (simp add: forceRoundEnd_def Let_def)

lemma checkRoundEnd_events: "onCentrifugeStart \<notin> set (snd (snd (checkRoundEnd ps rm)))"
  by (simp add: checkRoundEnd_def Let_def)

lemma escalate_instability_events: "onCentrifugeStart \<notin> set (snd (escalate_instability rm))"
  by (simp add: escalate_instability_def)

lemma start_finalCountdown_events: "onCentrifugeStart \<notin> set (snd (start_finalCountdown rm))"
  by (simp add: start_finalCountdown_def Let_def)

lemma updatePlaying_events: "onCentrifugeStart \<notin> set (snd (snd (updatePlaying dt ps now rm)))"
proof -
  have f: "\<And>r. onCentrifugeStart \<notin> set (snd (snd (forceRoundEnd ps now r)))"
    by (rule forceRoundEnd_events)
  have c: "\<And>r. onCentrifugeStart \<notin> set (snd (snd (checkRoundEnd ps r)))"
    by (rule checkRoundEnd_events)
  show ?thesis
    using f c
    by (simp add: updatePlaying_def Let_def escalate_instability_events
        start_finalCountdown_events split: prod.splits)
      (metis snd_conv)
qed

lemma RoundManager_update_proj:
  "RoundManager_update dt ps rnd now rm =
     (case state rm of
        countdown \<Rightarrow> (fst (updateCountdown dt rm), ps, snd (updateCountdown dt rm))
      | playing \<Rightarrow> updatePlaying dt ps now rm
      | roundEnd \<Rightarrow> (fst (updateRoundEnd dt ps rnd rm), ps, snd (updateRoundEnd dt ps rnd rm))
      | matchEnd \<Rightarrow> (rm, ps, [])
      | waiting \<Rightarrow> (rm, ps, []))"
  by (simp add: RoundManager_update_def split: rstate.splits prod.splits)

lemma RoundManager_update_events:
  "onCentrifugeStart \<notin> set (snd (snd (RoundManager_update dt ps rnd now rm)))"
  by (simp add: RoundManager_update_proj updateCountdown_events updateRoundEnd_events
      updatePlaying_events split: rstate.splits)

lemma setScale_centrifugeMode: "centrifugeMode (setScale s a) = centrifugeMode a"
  by (simp add: setScale_def applyScale_def Let_def)

lemma setShrinkSpeed_centrifugeMode: "centrifugeMode (setShrinkSpeed s a) = centrifugeMode a"
  by (simp add: setShrinkSpeed_def)

lemma Arena_update_centrifugeMode: "centrifugeMode (Arena_update dt pl a) = centrifugeMode a"
proof -
  have 1: "\<And>b. centrifugeMode (Arena_update_anim dt b) = centrifugeMode b"
    by (simp add: Arena_update_anim_def Let_def)
  have 2: "\<And>b. centrifugeMode (Arena_update_centrifuge dt pl b) = centrifugeMode b"
    by (simp add: Arena_update_centrifuge_def Let_def)
  have 3: "\<And>b. centrifugeMode (Arena_update_shrink dt pl b) = centrifugeMode b"
    by (simp add: Arena_update_shrink_def Let_def)
  show ?thesis by (simp add: Arena_update_def 1 2 3)
qed

lemma setAliveCount_centrifugeMode: "centrifugeMode (setAliveCount c a) = centrifugeMode a"
  by (simp add: setAliveCount_def)

lemma Arena_reset_centrifugeMode: "\<not> centrifugeMode (Arena_reset a)"
  by (simp add: Arena_reset_def Let_def)

lemma checkBoundaries_centrifugeMode:
  "centrifugeMode (fst (fold (boundary_step now) ps acc)) = centrifugeMode (fst acc)"
  by (induction ps arbitrary: acc) (simp_all add: boundary_step_def triggerBorderGlow_def)

lemma handle_event_frame:
  "players (handle_event e g) = players g"
  "roundManager (handle_event e g) = roundManager g"
  "playerCount (handle_event e g) = playerCount g"
  by (cases e; simp add: handle_event_def Let_def split: option.splits)+

lemma handle_events_frame:
  "players (fold handle_event evs g) = players g"
  "roundManager (fold handle_event evs g) = roundManager g"
  "playerCount (fold handle_event evs g) = playerCount g"
  by (induction evs arbitrary: g) (simp_all add: handle_event_frame)

lemma handle_event_centrifugeMode:
  "e \<noteq> onCentrifugeStart \<Longrightarrow>
   centrifugeMode (arena (handle_event e g)) = centrifugeMode (arena g)"
  by (cases e;
      simp add: handle_event_def Let_def setScale_centrifugeMode setShrinkSpeed_centrifugeMode
        split: option.splits)

lemma handle_events_centrifugeMode:
  "onCentrifugeStart \<notin> set evs \<Longrightarrow>
   centrifugeMode (arena (fold handle_event evs g)) = centrifugeMode (arena g)"
proof (induction evs arbitrary: g)
  case Nil
  then show ?case by simp
next
  case (Cons e evs)
  have ne: "e \<noteq> onCentrifugeStart" and rest: "onCentrifugeStart \<notin> set evs"
    using Cons.prems by auto
  have "centrifugeMode (arena (fold handle_event evs (handle_event e g)))
      = centrifugeMode (arena (handle_event e g))"
    by (rule Cons.IH [OF rest])
  then show ?case by (simp add: handle_event_centrifugeMode [OF ne])
qed

text \<open>\<open>fixedUpdate\<close> with the result of the round manager's update named.\<close>

lemma fixedUpdate_proj:
  "fixedUpdate dt inputs rnd now g =
     (let r = RoundManager_update dt (players g) rnd now (roundManager g);
          evs = snd (snd r);
          g1 = fold handle_event evs (g\<lparr>roundManager := fst r, players := fst (snd r)\<rparr>);
          g2 = g1\<lparr>arena := Arena_update dt (isPlaying (roundManager g1)) (arena g1)\<rparr>
      in if \<not> isPlaying (roundManager g2) then
           (if state (roundManager g2) = countdown \<and> \<not> roundResetDone g2
            then ((resetForRound g2)\<lparr>roundResetDone := True\<rparr>, evs)
            else (g2, evs))
         else
           (let pushMod = modifier_value pushMultiplier (activeModifier g2);
                bounceMod = modifier_value bounceMultiplier (activeModifier g2);
                ps3 = map (\<lambda>p. process_player dt (inputs (pid p)) g2 p) (players g2);
                aliveCount = int (length (filter isAlive ps3));
                g3 = g2\<lparr>players := ps3, arena := setAliveCount aliveCount (arena g2)\<rparr>;
                g4 = g3\<lparr>players := processCollisionsWithEffects pushMod bounceMod g3\<rparr>;
                c = checkBoundaries now (arena g4) (players g4)
            in (g4\<lparr>arena := fst c, players := snd c\<rparr>, evs)))"
  by (simp add: fixedUpdate_def Let_def split: prod.splits)

lemma fixedUpdate_events:
  "snd (fixedUpdate dt inputs rnd now g)
     = snd (snd (RoundManager_update dt (players g) rnd now (roundManager g)))"
  by (simp add: fixedUpdate_proj Let_def)

lemma fixedUpdate_centrifugeMode:
  assumes "\<not> centrifugeMode (arena g)"
  shows "\<not> centrifugeMode (arena (fst (fixedUpdate dt inputs rnd now g)))"
proof -
  let ?r = "RoundManager_update dt (players g) rnd now (roundManager g)"
  let ?g1 = "fold handle_event (snd (snd ?r)) (g\<lparr>roundManager := fst ?r, players := fst (snd ?r)\<rparr>)"
  have 1: "\<not> centrifugeMode (arena ?g1)"
    using assms by (simp add: handle_events_centrifugeMode [OF RoundManager_update_events])
  show ?thesis
    using 1
    by (simp add: fixedUpdate_proj Let_def resetForRound_def Arena_reset_centrifugeMode
        Arena_update_centrifugeMode setAliveCount_centrifugeMode checkBoundaries_def
        checkBoundaries_centrifugeMode)
qed

lemma startNewMatch_centrifuge:
  "\<not> centrifugeMode (arena (fst (startNewMatch g)))"
  "onCentrifugeStart \<notin> set (snd (startNewMatch g))"
  by (simp_all add: startNewMatch_def Let_def startMatch_def startCountdown_events
      handle_events_centrifugeMode Arena_reset_centrifugeMode)

lemma setPlayerCount_centrifuge: "\<not> centrifugeMode (arena (setPlayerCount c phases g))"
  by (simp add: setPlayerCount_def Let_def initializePlayers_def Arena_reset_centrifugeMode)

lemma apply_op_centrifuge:
  assumes "\<not> centrifugeMode (arena g)"
  shows "\<not> centrifugeMode (arena (fst (apply_op op g)))"
    and "onCentrifugeStart \<notin> set (snd (apply_op op g))"
  using assms
  by (simp_all add: apply_op_def startNewMatch_centrifuge setPlayerCount_centrifuge
      fixedUpdate_centrifugeMode fixedUpdate_events RoundManager_update_events
      split: game_op.splits)

lemma run_game_centrifuge:
  "\<not> centrifugeMode (arena (fst acc)) \<Longrightarrow> onCentrifugeStart \<notin> set (snd acc) \<Longrightarrow>
   \<not> centrifugeMode (arena (fst (run_game ops acc)))
   \<and> onCentrifugeStart \<notin> set (snd (run_game ops acc))"
proof (induction ops arbitrary: acc)
  case Nil
  then show ?case by simp
next
  case (Cons op ops)
  have a: "\<not> centrifugeMode (arena (fst (apply_op op (fst acc))))"
    and b: "onCentrifugeStart \<notin> set (snd (apply_op op (fst acc)))"
    using apply_op_centrifuge [OF Cons.prems(1)] by simp_all
  have "run_game (op # ops) acc
      = run_game ops (fst (apply_op op (fst acc)), snd acc @ snd (apply_op op (fst acc)))"
    by (simp split: prod.splits)
  then show ?case using Cons.IH [of "(fst (apply_op op (fst acc)), snd acc @ snd (apply_op op (fst acc)))"]
      a b Cons.prems(2) by simp
qed

lemma new_Game_centrifuge: "\<not> centrifugeMode (arena (new_Game phases))"
  by (simp add: new_Game_def initializePlayers_def new_Arena_def Let_def)

subsection \<open>The driver: dead players\<close>

lemma handleInput_dead: "\<not> isAlive p \<Longrightarrow> handleInput inp dt sm p = (p, None)"
  by (simp add: handleInput_def)

lemma Player_update_dead: "\<not> isAlive p \<Longrightarrow> Player_update dt ar fm p = p"
  by (simp add: Player_update_def)

lemma resolveCollision_dead:
  "\<not> isAlive p1 \<or> \<not> isAlive p2 \<Longrightarrow> resolveCollision p1 p2 dm bm = (p1, p2)"
  by (simp add: resolveCollision_def)

lemma tick_dash_alive:
  "isAlive (tick_dashCooldown dt p) = isAlive p"
  "isAlive (tick_dashState dt p) = isAlive p"
  "isAlive (startDash d sm p) = isAlive p"
  by (simp_all add: tick_dashCooldown_def tick_dashState_def startDash_def Let_def)

lemma handleInput_alive: "isAlive (fst (handleInput inp dt sm p)) = isAlive p"
  by (simp add: handleInput_def Let_def tick_dash_alive)

lemma update_stage_alive:
  "isAlive (update_trail p) = isAlive p"
  "isAlive (track_idle dt p) = isAlive p"
  "isAlive (apply_friction fm p) = isAlive p"
  "isAlive (limit_speed p) = isAlive p"
  "isAlive (integrate p) = isAlive p"
  "isAlive (updateVisualEffects dt ar p) = isAlive p"
  by (simp_all add: update_trail_def track_idle_def apply_friction_def limit_speed_def
      integrate_def updateVisualEffects_def Let_def split: option.splits)

lemma Player_update_alive: "isAlive (Player_update dt ar fm p) = isAlive p"
  by (simp add: Player_update_def update_stage_alive)

lemma add_force_frame:
  "isAlive (add_force f p) = isAlive p"
  "position (add_force f p) = position p"
  "isIdle (add_force f p) = isIdle p"
  "distanceFromCenter (add_force f p) = distanceFromCenter p"
  by (simp_all add: add_force_def)

lemma force_stage_alive:
  "isAlive (store_distance a p) = isAlive p"
  "isAlive (centrifuge_push a p) = isAlive p"
  "isAlive (suddenDeath_pull a p) = isAlive p"
  "isAlive (instability_push rm p) = isAlive p"
  "isAlive (idle_penalty a p) = isAlive p"
  by (simp_all add: store_distance_def centrifuge_push_def suddenDeath_pull_def
      instability_push_def idle_penalty_def add_force_frame Let_def)

lemma force_stage_dead:
  "\<not> isAlive p \<Longrightarrow> centrifuge_push a p = p"
  "\<not> isAlive p \<Longrightarrow> suddenDeath_pull a p = p"
  "\<not> isAlive p \<Longrightarrow> instability_push rm p = p"
  "\<not> isAlive p \<Longrightarrow> idle_penalty a p = p"
  by (simp_all add: centrifuge_push_def suddenDeath_pull_def instability_push_def
      idle_penalty_def)



lemma process_player_dead:
  "\<not> isAlive p \<Longrightarrow>
   process_player dt inp g p = p\<lparr>distanceFromCenter := Some (centerDistance (arena g) p)\<rparr>"
  by (simp add: process_player_def Let_def handleInput_dead Player_update_dead
      force_stage_dead force_stage_alive)
    (simp add: store_distance_def)

lemma process_player_alive: "isAlive (process_player dt inp g p) = isAlive p"
  by (simp add: process_player_def Let_def force_stage_alive handleInput_alive
      Player_update_alive)


lemma onHit_alive: "isAlive (onHit p) = isAlive p"
  by (simp add: onHit_def)

lemma resolveCollision_alive:
  "isAlive (fst (resolveCollision p1 p2 dm bm)) = isAlive p1"
  "isAlive (snd (resolveCollision p1 p2 dm bm)) = isAlive p2"
  by (simp_all add: resolveCollision_def Let_def)

lemma dead_frozen_update:
  "dead_frozen ps \<Longrightarrow> (\<not> isAlive q \<longrightarrow> velocity q = Vector2 0 0) \<Longrightarrow>
   dead_frozen (ps[i := q])"
  unfolding dead_frozen_def
  using set_update_subset_insert [of ps i q] by auto

lemma eliminate_frozen: "velocity (eliminate now p) = Vector2 0 0" "\<not> isAlive (eliminate now p)"
  by (simp_all add: eliminate_def)

lemma dead_frozen_eliminate_others:
  "dead_frozen ps \<Longrightarrow> dead_frozen (eliminate_others now keep xs ps)"
  unfolding eliminate_others_def
  by (induction xs arbitrary: ps) (simp_all add: dead_frozen_update eliminate_frozen)

lemma dead_frozen_award: "dead_frozen ps \<Longrightarrow> dead_frozen (award w ps)"
proof -
  assume d: "dead_frozen ps"
  have "\<And>i. dead_frozen (ps[i := addWin (ps ! i)])"
  proof -
    fix i
    have "i < length ps \<or> \<not> i < length ps" by blast
    then show "dead_frozen (ps[i := addWin (ps ! i)])"
    proof
      assume "i < length ps"
      then have "ps ! i \<in> set ps" by simp
      then have "\<not> isAlive (addWin (ps ! i)) \<longrightarrow> velocity (addWin (ps ! i)) = Vector2 0 0"
        using d by (simp add: dead_frozen_def addWin_def)
      then show ?thesis by (rule dead_frozen_update [OF d])
    next
      assume "\<not> i < length ps"
      then show ?thesis using d by (simp add: list_update_beyond)
    qed
  qed
  then show ?thesis using d by (simp add: award_def split: option.splits)
qed

lemma dead_frozen_forceRoundEnd:
  "dead_frozen ps \<Longrightarrow> dead_frozen (fst (snd (forceRoundEnd ps now rm)))"
  by (simp add: forceRoundEnd_def Let_def dead_frozen_award dead_frozen_eliminate_others)

lemma dead_frozen_checkRoundEnd:
  "dead_frozen ps \<Longrightarrow> dead_frozen (fst (snd (checkRoundEnd ps rm)))"
  by (simp add: checkRoundEnd_def Let_def dead_frozen_award)

lemma dead_frozen_updatePlaying:
  assumes "dead_frozen ps"
  shows "dead_frozen (fst (snd (updatePlaying dt ps now rm)))"
proof -
  have f: "\<And>r. dead_frozen (fst (snd (forceRoundEnd ps now r)))"
    using assms by (rule dead_frozen_forceRoundEnd)
  have c: "\<And>r. dead_frozen (fst (snd (checkRoundEnd ps r)))"
    using assms by (rule dead_frozen_checkRoundEnd)
  show ?thesis
    by (simp add: updatePlaying_def Let_def split_beta f c)
qed

lemma dead_frozen_RoundManager_update:
  "dead_frozen ps \<Longrightarrow> dead_frozen (fst (snd (RoundManager_update dt ps rnd now rm)))"
  by (simp add: RoundManager_update_proj dead_frozen_updatePlaying split: rstate.splits)

lemma dead_frozen_process:
  assumes "dead_frozen ps"
  shows "dead_frozen (map (\<lambda>p. process_player dt (inputs (pid p)) g p) ps)"
  unfolding dead_frozen_def
proof
  fix q assume "q \<in> set (map (\<lambda>p. process_player dt (inputs (pid p)) g p) ps)"
  then obtain p where p: "p \<in> set ps" and q: "q = process_player dt (inputs (pid p)) g p"
    by auto
  show "\<not> isAlive q \<longrightarrow> velocity q = Vector2 0 0"
  proof
    assume "\<not> isAlive q"
    then have dead: "\<not> isAlive p" by (simp add: q process_player_alive)
    then have "velocity p = Vector2 0 0" using assms p by (simp add: dead_frozen_def)
    then show "velocity q = Vector2 0 0" using dead by (simp add: q process_player_dead)
  qed
qed

lemma dead_frozen_collision_step:
  assumes "dead_frozen ps"
  shows "dead_frozen (collision_effects_step dm pm bm ij ps)"
proof -
  let ?p1 = "ps ! fst ij" and ?p2 = "ps ! snd ij"
  have "(\<not> isAlive ?p1 \<or> \<not> isAlive ?p2) \<or> (isAlive ?p1 \<and> isAlive ?p2)" by blast
  then show ?thesis
  proof
    assume "\<not> isAlive ?p1 \<or> \<not> isAlive ?p2"
    then show ?thesis using assms by (simp add: collision_effects_step_def Let_def)
  next
    assume a: "isAlive ?p1 \<and> isAlive ?p2"
    have r: "\<And>(h1 :: player) (h2 :: player) x. isAlive h1 \<Longrightarrow> isAlive h2 \<Longrightarrow>
        dead_frozen (case resolveCollision h1 h2 x bm of
                       (r1, r2) \<Rightarrow> ps[fst ij := r1, snd ij := r2])"
    proof -
      fix h1 h2 :: player and x assume h: "isAlive h1" "isAlive h2"
      have "isAlive (fst (resolveCollision h1 h2 x bm))" "isAlive (snd (resolveCollision h1 h2 x bm))"
        using h by (simp_all add: resolveCollision_alive)
      then have "dead_frozen (ps[fst ij := fst (resolveCollision h1 h2 x bm),
                                 snd ij := snd (resolveCollision h1 h2 x bm)])"
        using assms by (simp add: dead_frozen_update)
      then show "dead_frozen (case resolveCollision h1 h2 x bm of
                       (r1, r2) \<Rightarrow> ps[fst ij := r1, snd ij := r2])"
        by (simp add: split_beta)
    qed
    show ?thesis
      using a assms
      by (simp add: collision_effects_step_def Let_def r onHit_alive)
  qed
qed

lemma dead_frozen_collisions:
  "dead_frozen (players g) \<Longrightarrow> dead_frozen (processCollisionsWithEffects pm bm g)"
proof -
  have "\<And>dm ps. dead_frozen ps \<Longrightarrow>
      dead_frozen (fold (collision_effects_step dm pm bm) ijs ps)" for ijs
    by (induction ijs) (simp_all add: dead_frozen_collision_step)
  then show "dead_frozen (players g) \<Longrightarrow> dead_frozen (processCollisionsWithEffects pm bm g)"
    by (simp add: processCollisionsWithEffects_def Let_def)
qed

lemma dead_frozen_boundaries_fold:
  "dead_frozen ps \<Longrightarrow> dead_frozen (snd acc) \<Longrightarrow>
   dead_frozen (snd (fold (boundary_step now) ps acc))"
proof (induction ps arbitrary: acc)
  case Nil
  then show ?case by simp
next
  case (Cons p ps)
  have p: "\<not> isAlive p \<longrightarrow> velocity p = Vector2 0 0" and ps: "dead_frozen ps"
    using Cons.prems(1) by (simp_all add: dead_frozen_def)
  have "dead_frozen (snd (boundary_step now p acc))"
    using Cons.prems(2) p
    by (simp add: boundary_step_def dead_frozen_def eliminate_frozen)
  then show ?case using Cons.IH [OF ps] by simp
qed

lemma dead_frozen_Nil: "dead_frozen []"
  by (simp add: dead_frozen_def)

lemma dead_frozen_boundaries:
  "dead_frozen ps \<Longrightarrow> dead_frozen (snd (checkBoundaries now a ps))"
  by (simp add: checkBoundaries_def dead_frozen_boundaries_fold dead_frozen_Nil)

lemma respawn_alive: "\<forall>p\<in>set (respawn a n w ps). isAlive p"
  by (simp add: respawn_def Let_def Player_reset_def)

lemma dead_frozen_respawn: "dead_frozen (respawn a n w ps)"
  using respawn_alive [of a n w ps] by (simp add: dead_frozen_def)

lemma dead_frozen_initializePlayers: "dead_frozen (players (initializePlayers phases g))"
  by (simp add: initializePlayers_def dead_frozen_def new_Player_def Let_def)

lemma dead_frozen_fixedUpdate:
  assumes "dead_frozen (players g)"
  shows "dead_frozen (players (fst (fixedUpdate dt inputs rnd now g)))"
proof -
  let ?r = "RoundManager_update dt (players g) rnd now (roundManager g)"
  let ?g1 = "fold handle_event (snd (snd ?r)) (g\<lparr>roundManager := fst ?r, players := fst (snd ?r)\<rparr>)"
  have 1: "dead_frozen (players ?g1)"
    using assms by (simp add: handle_events_frame dead_frozen_RoundManager_update)
  have 2: "\<And>a pm bm g3. dead_frozen (players g3) \<Longrightarrow>
      dead_frozen (snd (checkBoundaries now a (processCollisionsWithEffects pm bm g3)))"
    by (intro dead_frozen_boundaries dead_frozen_collisions)
  show ?thesis
    using 1
    by (simp add: fixedUpdate_proj Let_def resetForRound_def dead_frozen_respawn
        dead_frozen_boundaries dead_frozen_process 2)
qed

lemma dead_frozen_startNewMatch: "dead_frozen (players (fst (startNewMatch g)))"
  by (simp add: startNewMatch_def Let_def handle_events_frame dead_frozen_respawn)

lemma dead_frozen_setPlayerCount: "dead_frozen (players (setPlayerCount c phases g))"
  by (simp add: setPlayerCount_def Let_def dead_frozen_initializePlayers)

lemma dead_frozen_apply_op:
  "dead_frozen (players g) \<Longrightarrow> dead_frozen (players (fst (apply_op op g)))"
  by (simp add: apply_op_def dead_frozen_startNewMatch dead_frozen_setPlayerCount
      dead_frozen_fixedUpdate split: game_op.splits)

lemma dead_frozen_run_game:
  "dead_frozen (players (fst acc)) \<Longrightarrow> dead_frozen (players (fst (run_game ops acc)))"
proof (induction ops arbitrary: acc)
  case Nil
  then show ?case by simp
next
  case (Cons op ops)
  have a: "dead_frozen (players (fst (apply_op op (fst acc))))"
    by (rule dead_frozen_apply_op [OF Cons.prems])
  have "run_game (op # ops) acc
      = run_game ops (fst (apply_op op (fst acc)), snd acc @ snd (apply_op op (fst acc)))"
    by (simp split: prod.splits)
  then show ?case
    using Cons.IH [of "(fst (apply_op op (fst acc)), snd acc @ snd (apply_op op (fst acc)))"] a
    by simp
qed

lemma dead_frozen_new_Game: "dead_frozen (players (new_Game phases))"
  by (simp add: new_Game_def dead_frozen_initializePlayers)

subsection \<open>The driver: a dead player through one step\<close>

lemma award_length: "length (award w ps) = length ps"
  by (simp add: award_def split: option.splits)

lemma award_other:
  assumes "w \<noteq> Some j"
  shows "award w ps ! j = ps ! j"
proof (cases w)
  case None
  then show ?thesis by (simp add: award_def)
next
  case (Some k)
  then have "k \<noteq> j" using assms by simp
  then show ?thesis using Some by (simp add: award_def)
qed

lemma alive_hd:
  assumes "length (alivePlayers ps) = 1"
  shows "isAlive (ps ! (alivePlayers ps ! 0))"
proof -
  have "alivePlayers ps ! 0 \<in> set (alivePlayers ps)" using assms by simp
  then show ?thesis by (simp add: alivePlayers_set)
qed

lemma checkRoundEnd_dead:
  "length (fst (snd (checkRoundEnd ps rm))) = length ps"
  "\<not> isAlive (ps ! j) \<Longrightarrow> fst (snd (checkRoundEnd ps rm)) ! j = ps ! j"
proof -
  show "length (fst (snd (checkRoundEnd ps rm))) = length ps"
    by (simp add: checkRoundEnd_def Let_def award_length)
  assume d: "\<not> isAlive (ps ! j)"
  have "length (alivePlayers ps) = 1 \<Longrightarrow> alivePlayers ps ! 0 \<noteq> j"
    using alive_hd [of ps] d by auto
  then show "fst (snd (checkRoundEnd ps rm)) ! j = ps ! j"
    by (simp add: checkRoundEnd_def Let_def award_other)
qed

lemma forceRoundEnd_dead:
  assumes j: "j < length ps" and d: "\<not> isAlive (ps ! j)"
  shows "length (fst (snd (forceRoundEnd ps now rm))) = length ps"
    and "fst (snd (forceRoundEnd ps now rm)) ! j = ps ! j"
proof -
  have "length (alivePlayers ps) = 0 \<or> length (alivePlayers ps) = 1
        \<or> 2 \<le> length (alivePlayers ps)" by arith
  then have "length (fst (snd (forceRoundEnd ps now rm))) = length ps
      \<and> fst (snd (forceRoundEnd ps now rm)) ! j = ps ! j"
  proof (elim disjE)
    assume "length (alivePlayers ps) = 0"
    then show ?thesis by (simp add: forceRoundEnd_def Let_def award_def)
  next
    assume a: "length (alivePlayers ps) = 1"
    then have "alivePlayers ps ! 0 \<noteq> j" using alive_hd [of ps] d by auto
    then show ?thesis using a by (simp add: forceRoundEnd_def Let_def award_length award_other)
  next
    assume "2 \<le> length (alivePlayers ps)"
    then obtain k where "forced_end_result ps now (fst (snd (forceRoundEnd ps now rm))) k"
      using forceRoundEnd_result [of ps now rm] by blast
    then show ?thesis using j d by (simp add: forced_end_result_def)
  qed
  then show "length (fst (snd (forceRoundEnd ps now rm))) = length ps"
    and "fst (snd (forceRoundEnd ps now rm)) ! j = ps ! j" by simp_all
qed

lemma updatePlaying_dead:
  assumes j: "j < length ps" and d: "\<not> isAlive (ps ! j)"
  shows "length (fst (snd (updatePlaying dt ps now rm))) = length ps"
    and "fst (snd (updatePlaying dt ps now rm)) ! j = ps ! j"
  by (simp_all add: updatePlaying_def Let_def split_beta
      forceRoundEnd_dead [OF j d] checkRoundEnd_dead(1) checkRoundEnd_dead(2) [OF d])

lemma RoundManager_update_dead:
  assumes j: "j < length ps" and d: "\<not> isAlive (ps ! j)"
  shows "length (fst (snd (RoundManager_update dt ps rnd now rm))) = length ps"
    and "fst (snd (RoundManager_update dt ps rnd now rm)) ! j = ps ! j"
  by (simp_all add: RoundManager_update_proj updatePlaying_dead [OF j d] split: rstate.splits)

lemma collision_step_dead:
  "length (collision_effects_step dm pm bm ij ps) = length ps"
  "\<not> isAlive (ps ! j) \<Longrightarrow> collision_effects_step dm pm bm ij ps ! j = ps ! j"
proof -
  show "length (collision_effects_step dm pm bm ij ps) = length ps"
    by (simp add: collision_effects_step_def Let_def split_beta)
  assume d: "\<not> isAlive (ps ! j)"
  have "fst ij = j \<or> snd ij = j \<or> (fst ij \<noteq> j \<and> snd ij \<noteq> j)" by blast
  then show "collision_effects_step dm pm bm ij ps ! j = ps ! j"
  proof (elim disjE)
    assume "fst ij = j"
    then show ?thesis using d by (simp add: collision_effects_step_def Let_def)
  next
    assume "snd ij = j"
    then show ?thesis using d by (simp add: collision_effects_step_def Let_def)
  next
    assume "fst ij \<noteq> j \<and> snd ij \<noteq> j"
    then show ?thesis by (simp add: collision_effects_step_def Let_def split_beta)
  qed
qed

lemma collisions_fold_dead:
  "\<not> isAlive (ps ! j) \<Longrightarrow>
   length (fold (collision_effects_step dm pm bm) ijs ps) = length ps
   \<and> fold (collision_effects_step dm pm bm) ijs ps ! j = ps ! j"
proof (induction ijs arbitrary: ps)
  case Nil
  then show ?case by simp
next
  case (Cons ij ijs)
  have d: "\<not> isAlive (collision_effects_step dm pm bm ij ps ! j)"
    using Cons.prems by (simp add: collision_step_dead)
  show ?case
    using Cons.IH [OF d] Cons.prems by (simp add: collision_step_dead)
qed

lemma collisions_dead:
  "\<not> isAlive (players g ! j) \<Longrightarrow>
   length (processCollisionsWithEffects pm bm g) = length (players g)
   \<and> processCollisionsWithEffects pm bm g ! j = players g ! j"
  by (simp add: processCollisionsWithEffects_def Let_def collisions_fold_dead)

lemma boundaries_fold_length:
  "length (snd (fold (boundary_step now) ps acc)) = length (snd acc) + length ps"
  by (induction ps arbitrary: acc) (simp_all add: boundary_step_def)

lemma boundaries_fold_prefix:
  "i < length (snd acc) \<Longrightarrow> snd (fold (boundary_step now) ps acc) ! i = snd acc ! i"
proof (induction ps arbitrary: acc)
  case Nil
  then show ?case by simp
next
  case (Cons p ps)
  have l: "i < length (snd (boundary_step now p acc))"
    using Cons.prems by (simp add: boundary_step_def)
  have "snd (boundary_step now p acc) ! i = snd acc ! i"
    using Cons.prems by (simp add: boundary_step_def nth_append)
  then show ?case using Cons.IH [OF l] by simp
qed

lemma boundaries_fold_dead:
  "j < length ps \<Longrightarrow> \<not> isAlive (ps ! j) \<Longrightarrow>
   snd (fold (boundary_step now) ps acc) ! (length (snd acc) + j) = ps ! j"
proof (induction ps arbitrary: acc j)
  case Nil
  then show ?case by simp
next
  case (Cons p ps)
  show ?case
  proof -
    have "j = 0 \<or> (\<exists>j'. j = Suc j')" by arith
    then show ?thesis
    proof
      assume z: "j = 0"
      then have dp: "\<not> isAlive p" using Cons.prems by simp
      have l: "length (snd acc) < length (snd (boundary_step now p acc))"
        by (simp add: boundary_step_def)
      have "snd (boundary_step now p acc) ! length (snd acc) = p"
        using dp by (simp add: boundary_step_def checkArenaBoundary_def)
      then show ?thesis using boundaries_fold_prefix [OF l, of now ps] z by simp
    next
      assume "\<exists>j'. j = Suc j'"
      then obtain j' where s: "j = Suc j'" by blast
      have a: "j' < length ps" "\<not> isAlive (ps ! j')" using Cons.prems s by simp_all
      have l: "length (snd (boundary_step now p acc)) = Suc (length (snd acc))"
        by (simp add: boundary_step_def)
      show ?thesis using Cons.IH [OF a, of "boundary_step now p acc"] s l by simp
    qed
  qed
qed

lemma checkBoundaries_dead:
  "length (snd (checkBoundaries now a ps)) = length ps"
  "j < length ps \<Longrightarrow> \<not> isAlive (ps ! j) \<Longrightarrow> snd (checkBoundaries now a ps) ! j = ps ! j"
  using boundaries_fold_dead [of j ps now "(a, [])"]
  by (simp_all add: checkBoundaries_def boundaries_fold_length)

lemma respawn_length: "length (respawn a n w ps) = length ps"
  by (simp add: respawn_def)

lemma respawn_nth_alive: "j < length ps \<Longrightarrow> isAlive (respawn a n w ps ! j)"
  using respawn_alive [of a n w ps] by (simp add: respawn_length)

subsection \<open>Centrifuge mode\<close>

text \<open>
  Claim C5 fails on the code.  The driver registers a handler for \<open>onCentrifugeStart\<close>
  that would switch the arena to centrifuge mode, but the round manager never sends
  that notification: in every run of the game, from the constructor on, it is never
  sent, \<open>centrifugeMode\<close> stays false, and \<open>isOutOfBounds\<close> and \<open>isEliminated\<close> remain
  the rectangular checks.
\<close>

theorem C5_centrifuge_never_activated:
  fixes ops :: "game_op list" and phases :: "nat \<Rightarrow> real"
  defines "g \<equiv> fst (run_game ops (new_Game phases, []))"
  shows "onCentrifugeStart \<notin> set (snd (run_game ops (new_Game phases, [])))
       \<and> \<not> centrifugeMode (arena g)
       \<and> isOutOfBounds (arena g) x y r =
           (x - r < left (bounds (arena g)) \<or> x + r > right (bounds (arena g)) \<or>
            y - r < top_y (bounds (arena g)) \<or> y + r > bottom (bounds (arena g)))
       \<and> isEliminated (arena g) x y r =
           (x + r < left (bounds (arena g)) \<or> x - r > right (bounds (arena g)) \<or>
            y + r < top_y (bounds (arena g)) \<or> y - r > bottom (bounds (arena g)))
       \<and> centrifugeMode (arena (handle_event onCentrifugeStart g'))"
proof -
  have r: "\<not> centrifugeMode (arena g)
      \<and> onCentrifugeStart \<notin> set (snd (run_game ops (new_Game phases, [])))"
    unfolding g_def by (rule run_game_centrifuge) (simp_all add: new_Game_centrifuge)
  have h: "centrifugeMode (arena (handle_event onCentrifugeStart g'))"
    by (simp add: handle_event_def activateCentrifuge_def)
  show ?thesis using r h by (simp add: oob_rect elim_rect)
qed

theorem C5_centrifuge_never_activated_witness:
  "onCentrifugeStart \<notin> set (snd (run_game whole_round (new_Game (\<lambda>i. 0), [])))
   \<and> \<not> centrifugeMode (arena (fst (run_game whole_round (new_Game (\<lambda>i. 0), []))))"
  using C5_centrifuge_never_activated [of whole_round "\<lambda>i. 0"] by simp

subsection \<open>No stalemate: the final countdown ends the round\<close>



























end
